theory Spec2Isabelle
  imports Complex_Main
begin

section \<open>Dates, errors and the rows of the three tables\<close>

text \<open>
  A calendar date is represented by its proleptic Gregorian ordinal
  (\<^verbatim>\<open>date.toordinal()\<close>): day 1 is 0001-01-01 and the last date Python can
  represent, 9999-12-31, is day 3652059. The code stores dates as ISO strings
  (\<^verbatim>\<open>isoformat()\<close>) and lets SQLite compare those strings; on dates of this range
  the ISO string order is the order of the ordinals, so the stored value is modelled by
  the ordinal itself.
\<close>

type_synonym date = int

definition MAXORDINAL :: int where
  "MAXORDINAL = 3652059"

text \<open>
  The exceptions that can leave the functions of \<^verbatim>\<open>database.py\<close>:
  \<^verbatim>\<open>OverflowError\<close> from the date arithmetic, \<^verbatim>\<open>sqlite3.IntegrityError\<close> from the
  foreign key of \<^verbatim>\<open>review_schedule\<close>, and any other failure of the SQLite store
  (unavailable storage, a locked database, ...), which carries its message.
\<close>

datatype error = OverflowError | IntegrityError | OperationalError string

text \<open>\<^verbatim>\<open>timedelta(days=n)\<close> raises when the magnitude exceeds 999999999 days.\<close>

definition timedelta :: "int \<Rightarrow> error + int" where
  "timedelta days = (if \<bar>days\<bar> > 999999999 then Inl OverflowError else Inr days)"

text \<open>\<^verbatim>\<open>date + timedelta\<close> raises when the result leaves 0001-01-01 .. 9999-12-31.\<close>

definition date_add :: "date \<Rightarrow> int \<Rightarrow> error + date" where
  "date_add d days =
     (let ord = d + days
      in if 0 < ord \<and> ord \<le> MAXORDINAL then Inr ord else Inl OverflowError)"

text \<open>
  Table \<^verbatim>\<open>problems\<close> (the class \<^verbatim>\<open>Problem\<close> of models.py). The tags are stored as
  the JSON text of a list of strings and parsed back by \<^verbatim>\<open>Problem.from_row\<close>; the
  record holds the list. The timestamp \<^verbatim>\<open>created_at\<close> is read by no operation below
  and is left out.
\<close>

record problem =
  p_id :: string
  title :: string
  description :: string
  difficulty :: string
  tags :: "string list"

text \<open>
  Table \<^verbatim>\<open>submissions\<close>. Column \<^verbatim>\<open>passed\<close> is NULL for a submission without
  a verdict. The timestamp \<^verbatim>\<open>submitted_at\<close> is left out.
\<close>

record submission =
  sub_id :: nat
  sub_problem_id :: string
  code :: string
  language :: string
  ai_feedback :: "string option"
  passed :: "bool option"

text \<open>
  Table \<^verbatim>\<open>review_schedule\<close>, primary key \<^verbatim>\<open>problem_id\<close>. Column
  \<^verbatim>\<open>last_reviewed\<close> is nullable and the code treats it so; \<^verbatim>\<open>interval_days\<close> is
  always written as an integer. Column \<^verbatim>\<open>ease_factor\<close> only ever holds its default 2.5.
\<close>

record schedule_row =
  rs_problem_id :: string
  next_review_date :: date
  interval_days :: int
  ease_factor :: rat
  last_reviewed :: "date option"

record database =
  problems :: "problem list"
  submissions :: "submission list"
  review_schedule :: "schedule_row list"

section \<open>The environment: clock, database file and store failures\<close>

text \<open>
  What the functions read besides their arguments: the system date
  (\<^verbatim>\<open>date.today()\<close>), the committed content of the database file, and the behaviour
  of the SQLite store. The latter is a script: the outcome of each coming call into
  sqlite3, \<open>None\<close> when it succeeds and \<open>Some e\<close> when it raises \<open>e\<close>. Once the
  script is used up every call succeeds.
\<close>

record world =
  clock :: date
  db :: database
  faults :: "error option list"

definition sqlite_call :: "world \<Rightarrow> error option \<times> world" where
  "sqlite_call w =
     (case faults w of
        [] \<Rightarrow> (None, w)
      | f # fs \<Rightarrow> (f, w\<lparr>faults := fs\<rparr>))"

text \<open>
  The context manager \<^verbatim>\<open>get_connection\<close>: connect and set two pragmas (three calls
  into sqlite3, outside the \<^verbatim>\<open>try\<close>), run the body, commit. An exception of the
  body or of the commit rolls the transaction back, so the file keeps the content it had
  when the connection was opened, and is raised again. Rollback and close are taken to
  succeed.
\<close>

definition get_connection ::
  "(world \<Rightarrow> (error + 'a) \<times> world) \<Rightarrow> world \<Rightarrow> (error + 'a) \<times> world" where
  "get_connection body w =
     (case sqlite_call w of
        (Some e, w1) \<Rightarrow> (Inl e, w1)
      | (None, w1) \<Rightarrow>
     (case sqlite_call w1 of
        (Some e, w2) \<Rightarrow> (Inl e, w2)
      | (None, w2) \<Rightarrow>
     (case sqlite_call w2 of
        (Some e, w3) \<Rightarrow> (Inl e, w3)
      | (None, w3) \<Rightarrow>
     (case body w3 of
        (Inl e, w4) \<Rightarrow> (Inl e, w4\<lparr>db := db w\<rparr>)
      | (Inr v, w4) \<Rightarrow>
     (case sqlite_call w4 of
        (Some e, w5) \<Rightarrow> (Inl e, w5\<lparr>db := db w\<rparr>)
      | (None, w5) \<Rightarrow> (Inr v, w5))))))"

section \<open>The review scheduler\<close>

text \<open>\<^verbatim>\<open>SELECT * FROM review_schedule WHERE problem_id = ?\<close>, then \<^verbatim>\<open>fetchone()\<close>.\<close>

definition select_schedule :: "database \<Rightarrow> string \<Rightarrow> schedule_row option" where
  "select_schedule d problem_id = find (\<lambda>r. rs_problem_id r = problem_id) (review_schedule d)"

text \<open>
  \<^verbatim>\<open>INSERT INTO review_schedule ... ON CONFLICT(problem_id) DO UPDATE SET ...\<close>:
  a row with this key has its three columns overwritten in place; otherwise a new row
  is added with the default ease factor, which the foreign key (enforced, since the
  connection sets \<^verbatim>\<open>PRAGMA foreign_keys=ON\<close>) allows only for a known problem.
\<close>

definition upsert_schedule ::
  "database \<Rightarrow> string \<Rightarrow> date \<Rightarrow> int \<Rightarrow> date \<Rightarrow> error + database" where
  "upsert_schedule d problem_id next_review ivl today =
     (if problem_id \<in> set (map rs_problem_id (review_schedule d))
      then Inr (d\<lparr>review_schedule :=
                  map (\<lambda>r. if rs_problem_id r = problem_id
                          then r\<lparr>next_review_date := next_review, interval_days := ivl,
                                 last_reviewed := Some today\<rparr>
                          else r) (review_schedule d)\<rparr>)
      else if problem_id \<in> set (map p_id (problems d))
      then Inr (d\<lparr>review_schedule := review_schedule d @
                  [\<lparr>rs_problem_id = problem_id, next_review_date = next_review,
                    interval_days = ivl, ease_factor = 5 / 2,
                    last_reviewed = Some today\<rparr>]\<rparr>)
      else Inl IntegrityError)"

text \<open>The dictionary returned by \<^verbatim>\<open>update_review_schedule\<close>.\<close>

record schedule_result =
  result_next_review_date :: date
  result_interval_days :: int

text \<open>The interval chosen at lines 209-219 of database.py.\<close>

definition new_interval :: "schedule_row option \<Rightarrow> bool \<Rightarrow> int" where
  "new_interval row success =
     (if success then
        (case row of
           None \<Rightarrow> 1
         | Some r \<Rightarrow>
             if interval_days r = 1 then 3
             else if interval_days r = 3 then 7
             else interval_days r * 2)
      else 1)"

definition update_review_schedule ::
  "world \<Rightarrow> string \<Rightarrow> bool \<Rightarrow> (error + schedule_result) \<times> world" where
  "update_review_schedule w problem_id success =
     (let today = clock w in
      get_connection (\<lambda>c.
        case sqlite_call c of
          (Some e, c1) \<Rightarrow> (Inl e, c1)
        | (None, c1) \<Rightarrow>
            let row = select_schedule (db c1) problem_id;
                ivl = new_interval row success
            in (case timedelta ivl of
                  Inl e \<Rightarrow> (Inl e, c1)
                | Inr td \<Rightarrow>
               (case date_add today td of
                  Inl e \<Rightarrow> (Inl e, c1)
                | Inr next_review \<Rightarrow>
               (case sqlite_call c1 of
                  (Some e, c2) \<Rightarrow> (Inl e, c2)
                | (None, c2) \<Rightarrow>
               (case upsert_schedule (db c2) problem_id next_review ivl today of
                  Inl e \<Rightarrow> (Inl e, c2)
                | Inr d \<Rightarrow>
                    (Inr \<lparr>result_next_review_date = next_review,
                          result_interval_days = ivl\<rparr>,
                     c2\<lparr>db := d\<rparr>)))))) w)"

text \<open>
  The query of \<^verbatim>\<open>get_due_reviews\<close>: the join of \<^verbatim>\<open>problems\<close> with
  \<^verbatim>\<open>review_schedule\<close> on the problem id, restricted to the rows whose
  \<^verbatim>\<open>next_review_date\<close> is not after today, ordered by that date. SQL leaves the
  order of rows with equal dates open; the stable order of the join is used here.
\<close>

definition due_join :: "database \<Rightarrow> date \<Rightarrow> (problem \<times> schedule_row) list" where
  "due_join d today =
     sort_key (\<lambda>(p, rs). next_review_date rs)
       (filter (\<lambda>(p, rs). p_id p = rs_problem_id rs \<and> next_review_date rs \<le> today)
          (List.product (problems d) (review_schedule d)))"

definition get_due_reviews :: "world \<Rightarrow> (error + problem list) \<times> world" where
  "get_due_reviews w =
     (let today = clock w in
      get_connection (\<lambda>c.
        case sqlite_call c of
          (Some e, c1) \<Rightarrow> (Inl e, c1)
        | (None, c1) \<Rightarrow> (Inr (map fst (due_join (db c1) today)), c1)) w)"

text \<open>
  The streak loop of \<^verbatim>\<open>get_review_stats\<close> (lines 286-297): one COUNT query per day,
  walking back from \<^verbatim>\<open>check_date\<close> until a day without a review. Stepping back from
  0001-01-01 raises \<^verbatim>\<open>OverflowError\<close>.
\<close>

definition count_last_reviewed :: "database \<Rightarrow> date \<Rightarrow> nat" where
  "count_last_reviewed d day =
     length (filter (\<lambda>r. last_reviewed r = Some day) (review_schedule d))"

function streak_loop :: "world \<Rightarrow> nat \<Rightarrow> date \<Rightarrow> (error + nat) \<times> world" where
  "streak_loop c streak check_date =
     (case sqlite_call c of
        (Some e, c1) \<Rightarrow> (Inl e, c1)
      | (None, c1) \<Rightarrow>
          if count_last_reviewed (db c1) check_date = 0 then (Inr streak, c1)
          else (case date_add check_date (- 1) of
                  Inl e \<Rightarrow> (Inl e, c1)
                | Inr d \<Rightarrow> streak_loop c1 (streak + 1) d))"
  by pat_completeness auto
termination
  by (relation "measure (\<lambda>(c, streak, check_date). nat check_date)")
     (auto simp: date_add_def Let_def split: if_splits)

text \<open>
  \<^verbatim>\<open>get_review_stats\<close>: three queries (due today, ever reviewed, graded
  submissions), then the streak loop, all on one connection. The average success rate,
  a rounded floating-point quotient, is not part of the record.
\<close>

record review_stats =
  due_today :: nat
  total_reviewed :: nat
  current_streak :: nat

definition get_review_stats :: "world \<Rightarrow> (error + review_stats) \<times> world" where
  "get_review_stats w =
     (let today = clock w in
      get_connection (\<lambda>c.
        case sqlite_call c of
          (Some e, c1) \<Rightarrow> (Inl e, c1)
        | (None, c1) \<Rightarrow>
       (let due = length (filter (\<lambda>r. next_review_date r \<le> today) (review_schedule (db c1)))
        in case sqlite_call c1 of
          (Some e, c2) \<Rightarrow> (Inl e, c2)
        | (None, c2) \<Rightarrow>
       (let total = length (filter (\<lambda>r. last_reviewed r \<noteq> None) (review_schedule (db c2)))
        in case sqlite_call c2 of
          (Some e, c3) \<Rightarrow> (Inl e, c3)
        | (None, c3) \<Rightarrow>
       (case streak_loop c3 0 today of
          (Inl e, c4) \<Rightarrow> (Inl e, c4)
        | (Inr streak, c4) \<Rightarrow>
            (Inr \<lparr>due_today = due, total_reviewed = total, current_streak = streak\<rparr>,
             c4))))) w)"

text \<open>
  The query of \<^verbatim>\<open>get_success_rate\<close>: COUNT and SUM over the graded submissions
  of one problem. SUM over no rows is NULL, which \<^verbatim>\<open>or 0\<close> turns into 0. The
  pair is (passed, total), as the function returns it.
\<close>

definition success_rate_query :: "database \<Rightarrow> string \<Rightarrow> int \<times> int" where
  "success_rate_query d problem_id =
     (let rows = filter (\<lambda>s. sub_problem_id s = problem_id \<and> passed s \<noteq> None)
                   (submissions d);
          total = int (length rows);
          passed_sum =
            (if rows = [] then None
             else Some (sum_list (map (\<lambda>s. if passed s = Some True then 1 else 0) rows)))
      in (case passed_sum of None \<Rightarrow> 0 | Some n \<Rightarrow> n, total))"

definition get_success_rate :: "world \<Rightarrow> string \<Rightarrow> (error + int \<times> int) \<times> world" where
  "get_success_rate w problem_id =
     get_connection (\<lambda>c.
       case sqlite_call c of
         (Some e, c1) \<Rightarrow> (Inl e, c1)
       | (None, c1) \<Rightarrow> (Inr (success_rate_query (db c1) problem_id), c1)) w"

section \<open>Sequences of outcomes and the states they reach\<close>

text \<open>
  The interval sequence as the specification words it: 1, 3, 7, then repeated doubling
  (1, 3, 7, 14, 28, 56, ...).
\<close>

fun interval_sequence :: "nat \<Rightarrow> int" where
  "interval_sequence 0 = 1"
| "interval_sequence (Suc 0) = 3"
| "interval_sequence (Suc (Suc 0)) = 7"
| "interval_sequence (Suc (Suc (Suc n))) = 2 * interval_sequence (Suc (Suc n))"

text \<open>
  A run of successes on one problem, one call per entry of \<open>days\<close>, the system date
  being that entry at the time of the call. The results of the calls are collected.
\<close>

fun record_successes ::
  "world \<Rightarrow> string \<Rightarrow> date list \<Rightarrow> (error + schedule_result) list" where
  "record_successes w problem_id [] = []"
| "record_successes w problem_id (today # days) =
     (case update_review_schedule (w\<lparr>clock := today\<rparr>) problem_id True of
        (res, w') \<Rightarrow> res # record_successes w' problem_id days)"

text \<open>
  The worlds that can arise from an empty schedule table: the scheduler records an
  outcome (for any problem, with either verdict, whether or not the store fails), or
  anything else happens that does not write the schedule table (time passes, the store
  changes its behaviour, problems are loaded, submissions are saved).
\<close>

inductive reachable :: "world \<Rightarrow> bool" where
  empty_schedule: "review_schedule (db w) = [] \<Longrightarrow> reachable w"
| outcome: "reachable w \<Longrightarrow> update_review_schedule w problem_id success = (res, w')
            \<Longrightarrow> reachable w'"
| elsewhere: "reachable w \<Longrightarrow> review_schedule (db w') = review_schedule (db w)
            \<Longrightarrow> reachable w'"

section \<open>Store failures along a call\<close>

text \<open>
  The first failure in a script of store outcomes, with the script that remains after
  the failing call.
\<close>

fun store_failure :: "error option list \<Rightarrow> (error \<times> error option list) option" where
  "store_failure [] = None"
| "store_failure (None # fs) = store_failure fs"
| "store_failure (Some e # fs) = Some (e, fs)"

text \<open>
  \<open>succeeded fs fs'\<close>: the calls that took the script from \<open>fs\<close> to \<open>fs'\<close> all
  succeeded.
\<close>

fun succeeded :: "error option list \<Rightarrow> error option list \<Rightarrow> bool" where
  "succeeded [] fs' = (fs' = [])"
| "succeeded (f # fs) fs' = (f # fs = fs' \<or> (f = None \<and> succeeded fs fs'))"

text \<open>
  What a result says about the store calls made on the way: a returned value means
  that every call succeeded; a raised error is either the first failure of the store,
  after which no further call was made, or one of the two errors that the function
  itself can meet (date out of range, unknown problem) with every store call before
  it successful.
\<close>

definition traced :: "error option list \<Rightarrow> error + 'a \<Rightarrow> error option list \<Rightarrow> bool" where
  "traced fs r fs' =
     (case r of
        Inr v \<Rightarrow> succeeded fs fs'
      | Inl e \<Rightarrow> store_failure fs = Some (e, fs') \<or>
                 (succeeded fs fs' \<and> (e = OverflowError \<or> e = IntegrityError)))"

section \<open>Example data\<close>

text \<open>The three problems of the test fixture, and a world with no schedule yet.\<close>

definition example_problems :: "problem list" where
  "example_problems =
     [\<lparr>p_id = ''two-sum'', title = ''Two Sum'',
       description = ''Find two numbers that add up to target.'',
       difficulty = ''easy'', tags = [''arrays'']\<rparr>,
      \<lparr>p_id = ''valid-parens'', title = ''Valid Parentheses'',
       description = ''Check if parentheses are balanced.'',
       difficulty = ''easy'', tags = [''stacks'']\<rparr>,
      \<lparr>p_id = ''longest-substring'', title = ''Longest Substring'',
       description = ''Find longest substring without repeating chars.'',
       difficulty = ''medium'', tags = [''strings'']\<rparr>]"

definition fresh_world :: "date \<Rightarrow> world" where
  "fresh_world today =
     \<lparr>clock = today,
      db = \<lparr>problems = example_problems, submissions = [], review_schedule = []\<rparr>,
      faults = []\<rparr>"

text \<open>A world on 2024-01-01 (day 738886) whose schedule rows are given.\<close>

definition scheduled_world :: "schedule_row list \<Rightarrow> world" where
  "scheduled_world rows =
     \<lparr>clock = 738886,
      db = \<lparr>problems = example_problems, submissions = [], review_schedule = rows\<rparr>,
      faults = []\<rparr>"

text \<open>
  Four submissions: three graded ones for the first problem (pass, fail, pass) and one
  without a verdict for the second.
\<close>

definition example_submissions :: "submission list" where
  "example_submissions =
     [\<lparr>sub_id = 1, sub_problem_id = ''two-sum'', code = ''code1'', language = ''python'',
       ai_feedback = Some ''Good'', passed = Some True\<rparr>,
      \<lparr>sub_id = 2, sub_problem_id = ''two-sum'', code = ''code2'', language = ''python'',
       ai_feedback = Some ''Bad'', passed = Some False\<rparr>,
      \<lparr>sub_id = 3, sub_problem_id = ''valid-parens'', code = ''code'', language = ''python'',
       ai_feedback = None, passed = None\<rparr>,
      \<lparr>sub_id = 4, sub_problem_id = ''two-sum'', code = ''code3'', language = ''python'',
       ai_feedback = Some ''Good'', passed = Some True\<rparr>]"

definition graded_world :: world where
  "graded_world =
     \<lparr>clock = 738886,
      db = \<lparr>problems = example_problems, submissions = example_submissions,
            review_schedule = []\<rparr>,
      faults = []\<rparr>"

section \<open>Basic facts about the store and the connection\<close>

lemma sqlite_call_no_faults: "faults w = [] \<Longrightarrow> sqlite_call w = (None, w)"
  by (simp add: sqlite_call_def)

lemma sqlite_call_frame:
  "sqlite_call w = (r, w') \<Longrightarrow> db w' = db w \<and> clock w' = clock w"
  by (auto simp: sqlite_call_def split: list.splits)

lemma sqlite_call_faults:
  "sqlite_call w = (r, w') \<Longrightarrow> faults w = [] \<and> r = None \<and> w' = w \<or> faults w = r # faults w'"
  by (auto simp: sqlite_call_def split: list.splits)

lemma get_connection_no_faults:
  assumes "faults w = []" and "body w = (r, w')" and "faults w' = []"
  shows "get_connection body w =
           (case r of Inl e \<Rightarrow> (Inl e, w'\<lparr>db := db w\<rparr>) | Inr v \<Rightarrow> (Inr v, w'))"
  using assms by (simp add: get_connection_def sqlite_call_no_faults split: sum.splits)

lemma get_connection_Inl:
  assumes "get_connection body w = (Inl e, w')"
  shows "db w' = db w"
  using assms
  by (auto simp: get_connection_def split: prod.splits option.splits sum.splits
           dest!: sqlite_call_frame)

lemma get_connection_Inr:
  assumes "get_connection body w = (Inr v, w')"
  shows "\<exists>c c'. body c = (Inr v, c') \<and> db c = db w \<and> clock c = clock w \<and> db w' = db c' \<and> clock w' = clock c'"
  using assms
  by (auto simp: get_connection_def split: prod.splits option.splits sum.splits
           dest!: sqlite_call_frame; blast)

lemma update_review_schedule_no_faults:
  assumes "faults w = []"
  shows "update_review_schedule w problem_id success =
    (let ivl = new_interval (select_schedule (db w) problem_id) success in
     case timedelta ivl of
       Inl e \<Rightarrow> (Inl e, w)
     | Inr td \<Rightarrow>
     (case date_add (clock w) td of
       Inl e \<Rightarrow> (Inl e, w)
     | Inr next_review \<Rightarrow>
     (case upsert_schedule (db w) problem_id next_review ivl (clock w) of
       Inl e \<Rightarrow> (Inl e, w)
     | Inr d \<Rightarrow> (Inr \<lparr>result_next_review_date = next_review, result_interval_days = ivl\<rparr>,
                 w\<lparr>db := d\<rparr>))))"
  using assms
  by (simp add: update_review_schedule_def get_connection_def sqlite_call_no_faults Let_def
           split: sum.splits)

lemma update_review_schedule_Inr:
  assumes "update_review_schedule w problem_id success = (Inr r, w')"
  shows "result_interval_days r = new_interval (select_schedule (db w) problem_id) success"
    and "result_next_review_date r =
           clock w + new_interval (select_schedule (db w) problem_id) success"
    and "0 < clock w + new_interval (select_schedule (db w) problem_id) success"
    and "clock w + new_interval (select_schedule (db w) problem_id) success \<le> MAXORDINAL"
    and "upsert_schedule (db w) problem_id
           (clock w + new_interval (select_schedule (db w) problem_id) success)
           (new_interval (select_schedule (db w) problem_id) success) (clock w) = Inr (db w')"
    and "clock w' = clock w"
proof -
  from get_connection_Inr[OF assms[unfolded update_review_schedule_def Let_def]]
  obtain c c' where b: "(case sqlite_call c of
          (Some e, c1) \<Rightarrow> (Inl e, c1)
        | (None, c1) \<Rightarrow>
            (case timedelta (new_interval (select_schedule (db c1) problem_id) success) of
                  Inl e \<Rightarrow> (Inl e, c1)
                | Inr td \<Rightarrow>
               (case date_add (clock w) td of
                  Inl e \<Rightarrow> (Inl e, c1)
                | Inr next_review \<Rightarrow>
               (case sqlite_call c1 of
                  (Some e, c2) \<Rightarrow> (Inl e, c2)
                | (None, c2) \<Rightarrow>
               (case upsert_schedule (db c2) problem_id next_review (new_interval (select_schedule (db c1) problem_id) success) (clock w) of
                  Inl e \<Rightarrow> (Inl e, c2)
                | Inr d \<Rightarrow>
                    (Inr \<lparr>result_next_review_date = next_review,
                          result_interval_days = (new_interval (select_schedule (db c1) problem_id) success)\<rparr>,
                     c2\<lparr>db := d\<rparr>)))))) = (Inr r, c')"
    and f: "db c = db w" "clock c = clock w" "db w' = db c'" "clock w' = clock c'"
    by blast
  have "result_interval_days r = new_interval (select_schedule (db w) problem_id) success
      \<and> result_next_review_date r =
           clock w + new_interval (select_schedule (db w) problem_id) success
      \<and> 0 < clock w + new_interval (select_schedule (db w) problem_id) success
      \<and> clock w + new_interval (select_schedule (db w) problem_id) success \<le> MAXORDINAL
      \<and> upsert_schedule (db w) problem_id
           (clock w + new_interval (select_schedule (db w) problem_id) success)
           (new_interval (select_schedule (db w) problem_id) success) (clock w) = Inr (db w')
      \<and> clock w' = clock w"
    using b f
    by (auto simp: timedelta_def date_add_def Let_def
          split: prod.splits option.splits sum.splits if_splits dest!: sqlite_call_frame)
  then show
    "result_interval_days r = new_interval (select_schedule (db w) problem_id) success"
    "result_next_review_date r =
           clock w + new_interval (select_schedule (db w) problem_id) success"
    "0 < clock w + new_interval (select_schedule (db w) problem_id) success"
    "clock w + new_interval (select_schedule (db w) problem_id) success \<le> MAXORDINAL"
    "upsert_schedule (db w) problem_id
           (clock w + new_interval (select_schedule (db w) problem_id) success)
           (new_interval (select_schedule (db w) problem_id) success) (clock w) = Inr (db w')"
    "clock w' = clock w"
    by blast+
qed

lemma update_review_schedule_Inl:
  "update_review_schedule w problem_id success = (Inl e, w') \<Longrightarrow> db w' = db w"
  unfolding update_review_schedule_def Let_def by (rule get_connection_Inl)

section \<open>Facts about the upsert\<close>

lemma find_map_key:
  assumes "\<And>r. key (f r) = key r"
  shows "find (\<lambda>r. key r = k) (map f rows) = map_option f (find (\<lambda>r. key r = k) rows)"
  using assms by (induction rows) auto

lemma find_append_case:
  "find P (xs @ ys) = (case find P xs of None \<Rightarrow> find P ys | Some x \<Rightarrow> Some x)"
  by (induction xs) auto

lemma select_schedule_mem:
  "select_schedule d q = Some row \<Longrightarrow> row \<in> set (review_schedule d) \<and> rs_problem_id row = q"
  by (auto simp: select_schedule_def find_Some_iff)

lemma select_schedule_None:
  "select_schedule d q = None \<longleftrightarrow> q \<notin> set (map rs_problem_id (review_schedule d))"
  by (auto simp: select_schedule_def find_None_iff)

lemma upsert_schedule_select:
  assumes "upsert_schedule d problem_id nr ivl t = Inr d'"
  shows "\<exists>row. select_schedule d' problem_id = Some row \<and> rs_problem_id row = problem_id
           \<and> next_review_date row = nr \<and> interval_days row = ivl
           \<and> last_reviewed row = Some t"
proof (cases "problem_id \<in> set (map rs_problem_id (review_schedule d))")
  case True
  then obtain old where "select_schedule d problem_id = Some old"
    using select_schedule_None[of d problem_id] by (cases "select_schedule d problem_id") auto
  moreover have "rs_problem_id old = problem_id"
    using calculation select_schedule_mem by blast
  ultimately show ?thesis using assms True
    by (auto simp: upsert_schedule_def select_schedule_def find_map_key[where key=rs_problem_id])
next
  case False
  then have "find (\<lambda>r. rs_problem_id r = problem_id) (review_schedule d) = None"
    by (auto simp: find_None_iff)
  then show ?thesis using assms False
    by (auto simp: upsert_schedule_def select_schedule_def find_append_case split: if_splits)
qed

lemma upsert_schedule_other:
  assumes "upsert_schedule d problem_id nr ivl t = Inr d'" and "q \<noteq> problem_id"
  shows "select_schedule d' q = select_schedule d q"
proof -
  have "find (\<lambda>r. rs_problem_id r = q) (map (\<lambda>r. if rs_problem_id r = problem_id
          then r\<lparr>next_review_date := nr, interval_days := ivl, last_reviewed := Some t\<rparr>
          else r) rows) = find (\<lambda>r. rs_problem_id r = q) rows" for rows
    using assms(2) by (induction rows) auto
  then show ?thesis using assms
    by (auto simp: upsert_schedule_def select_schedule_def find_append_case
             split: if_splits option.splits)
qed

lemma upsert_schedule_frame:
  assumes "upsert_schedule d problem_id nr ivl t = Inr d'"
  shows "problems d' = problems d \<and> submissions d' = submissions d"
  using assms by (auto simp: upsert_schedule_def split: if_splits)

lemma upsert_schedule_rows:
  assumes "upsert_schedule d problem_id nr ivl t = Inr d'"
    and "r \<in> set (review_schedule d')"
  shows "(r \<in> set (review_schedule d) \<and> rs_problem_id r \<noteq> problem_id)
       \<or> (rs_problem_id r = problem_id \<and> next_review_date r = nr \<and> interval_days r = ivl
           \<and> last_reviewed r = Some t)"
  using assms by (fastforce simp: upsert_schedule_def split: if_splits)

lemma upsert_schedule_key_list:
  assumes "upsert_schedule d problem_id nr ivl t = Inr d'"
  shows "map rs_problem_id (review_schedule d') =
           (if problem_id \<in> set (map rs_problem_id (review_schedule d))
            then map rs_problem_id (review_schedule d)
            else map rs_problem_id (review_schedule d) @ [problem_id])"
proof -
  have keep: "map (rs_problem_id \<circ> (\<lambda>r. if rs_problem_id r = problem_id
          then r\<lparr>next_review_date := nr, interval_days := ivl, last_reviewed := Some t\<rparr>
          else r)) rows = map rs_problem_id rows" for rows
    by (induction rows) auto
  show ?thesis using assms
    by (auto simp: upsert_schedule_def keep split: if_splits)
qed

lemma upsert_schedule_distinct:
  assumes "upsert_schedule d problem_id nr ivl t = Inr d'"
    and "distinct (map rs_problem_id (review_schedule d))"
  shows "distinct (map rs_problem_id (review_schedule d'))"
  using assms(2) by (simp add: upsert_schedule_key_list[OF assms(1)])

section \<open>Evaluation of concrete runs\<close>

lemmas eval_defs =
  update_review_schedule_def get_connection_def sqlite_call_def select_schedule_def
  new_interval_def timedelta_def date_add_def upsert_schedule_def MAXORDINAL_def Let_def
  fresh_world_def scheduled_world_def example_problems_def

section \<open>Claims about recording an outcome\<close>

text \<open>
  Claim C1. Recording a failure resets the interval, whatever the schedule was before:
  a call of \<^verbatim>\<open>update_review_schedule\<close> with \<open>success = False\<close> that returns,
  returns interval 1 and the day after today, and the stored row of the problem holds
  the same two values. The call does return when the store does not fail, the problem
  exists and tomorrow is a date that Python can represent.
\<close>

theorem failure_resets_interval:
  "(update_review_schedule w problem_id False = (Inr r, w') \<longrightarrow>
      result_interval_days r = 1 \<and> result_next_review_date r = clock w + 1 \<and>
      (\<exists>row. select_schedule (db w') problem_id = Some row \<and> interval_days row = 1 \<and>
             next_review_date row = clock w + 1))
   \<and> (faults w = [] \<and> problem_id \<in> set (map p_id (problems (db w))) \<and>
      0 \<le> clock w \<and> clock w < MAXORDINAL \<longrightarrow>
      (\<exists>d. update_review_schedule w problem_id False =
             (Inr \<lparr>result_next_review_date = clock w + 1, result_interval_days = 1\<rparr>,
              w\<lparr>db := d\<rparr>)))"
proof (intro conjI impI)
  assume a: "update_review_schedule w problem_id False = (Inr r, w')"
  note f = update_review_schedule_Inr[OF a]
  have ni: "new_interval (select_schedule (db w) problem_id) False = 1"
    by (simp add: new_interval_def)
  from f(1) ni show "result_interval_days r = 1" by simp
  from f(2) ni show "result_next_review_date r = clock w + 1" by simp
  from upsert_schedule_select[OF f(5)] ni
  show "\<exists>row. select_schedule (db w') problem_id = Some row \<and> interval_days row = 1 \<and>
             next_review_date row = clock w + 1" by auto
next
  assume h: "faults w = [] \<and> problem_id \<in> set (map p_id (problems (db w))) \<and>
      0 \<le> clock w \<and> clock w < MAXORDINAL"
  then have "\<exists>d. upsert_schedule (db w) problem_id (clock w + 1) 1 (clock w) = Inr d"
    by (simp add: upsert_schedule_def)
  then obtain d where "upsert_schedule (db w) problem_id (clock w + 1) 1 (clock w) = Inr d" ..
  with h show "\<exists>d. update_review_schedule w problem_id False =
             (Inr \<lparr>result_next_review_date = clock w + 1, result_interval_days = 1\<rparr>,
              w\<lparr>db := d\<rparr>)"
    by (auto simp: update_review_schedule_no_faults new_interval_def timedelta_def date_add_def)
qed

theorem failure_resets_interval_witness:
  "update_review_schedule
     (scheduled_world [\<lparr>rs_problem_id = ''two-sum'', next_review_date = 738900,
                        interval_days = 28, ease_factor = 5 / 2,
                        last_reviewed = Some 738872\<rparr>]) ''two-sum'' False =
     (Inr \<lparr>result_next_review_date = 738887, result_interval_days = 1\<rparr>,
      scheduled_world [\<lparr>rs_problem_id = ''two-sum'', next_review_date = 738887,
                        interval_days = 1, ease_factor = 5 / 2,
                        last_reviewed = Some 738886\<rparr>])
   \<and> select_schedule
       (db (scheduled_world [\<lparr>rs_problem_id = ''two-sum'', next_review_date = 738887,
                        interval_days = 1, ease_factor = 5 / 2,
                        last_reviewed = Some 738886\<rparr>])) ''two-sum'' =
     Some \<lparr>rs_problem_id = ''two-sum'', next_review_date = 738887,
                        interval_days = 1, ease_factor = 5 / 2,
                        last_reviewed = Some 738886\<rparr>
   \<and> faults (fresh_world 738886) = []
   \<and> ''two-sum'' \<in> set (map p_id (problems (db (fresh_world 738886))))
   \<and> 0 \<le> clock (fresh_world 738886) \<and> clock (fresh_world 738886) < MAXORDINAL
   \<and> (\<exists>d. update_review_schedule (fresh_world 738886) ''two-sum'' False =
             (Inr \<lparr>result_next_review_date = 738887, result_interval_days = 1\<rparr>,
              (fresh_world 738886)\<lparr>db := d\<rparr>))"
proof -
  let ?w = "scheduled_world [\<lparr>rs_problem_id = ''two-sum'', next_review_date = 738900,
                        interval_days = 28, ease_factor = 5 / 2,
                        last_reviewed = Some 738872\<rparr>]"
  let ?w' = "scheduled_world [\<lparr>rs_problem_id = ''two-sum'', next_review_date = 738887,
                        interval_days = 1, ease_factor = 5 / 2,
                        last_reviewed = Some 738886\<rparr>]"
  let ?r = "\<lparr>result_next_review_date = 738887, result_interval_days = 1\<rparr>"
  have run: "update_review_schedule ?w ''two-sum'' False = (Inr ?r, ?w')"
    by (simp add: eval_defs)
  have pre: "faults (fresh_world 738886) = []
     \<and> ''two-sum'' \<in> set (map p_id (problems (db (fresh_world 738886))))
     \<and> 0 \<le> clock (fresh_world 738886) \<and> clock (fresh_world 738886) < MAXORDINAL"
    by (simp add: eval_defs)
  from failure_resets_interval[of ?w "''two-sum''" ?r ?w'] run
  have "\<exists>row. select_schedule (db ?w') ''two-sum'' = Some row \<and> interval_days row = 1 \<and>
             next_review_date row = clock ?w + 1" by blast
  moreover have "select_schedule (db ?w') ''two-sum'' =
     Some \<lparr>rs_problem_id = ''two-sum'', next_review_date = 738887,
                        interval_days = 1, ease_factor = 5 / 2,
                        last_reviewed = Some 738886\<rparr>" by (simp add: eval_defs)
  moreover from failure_resets_interval[of "fresh_world 738886" "''two-sum''"] pre
  have "\<exists>d. update_review_schedule (fresh_world 738886) ''two-sum'' False =
             (Inr \<lparr>result_next_review_date = clock (fresh_world 738886) + 1,
                   result_interval_days = 1\<rparr>, (fresh_world 738886)\<lparr>db := d\<rparr>)" by blast
  then have "\<exists>d. update_review_schedule (fresh_world 738886) ''two-sum'' False =
             (Inr \<lparr>result_next_review_date = 738887,
                   result_interval_days = 1\<rparr>, (fresh_world 738886)\<lparr>db := d\<rparr>)"
    by (simp add: fresh_world_def)
  ultimately show ?thesis using run pre by blast
qed

section \<open>Facts about the interval sequence\<close>

lemma interval_sequence_ge_7: "7 \<le> interval_sequence (Suc (Suc n))"
  by (induction n) auto

lemma interval_sequence_pos: "1 \<le> interval_sequence n"
proof (cases n)
  case 0
  then show ?thesis by simp
next
  case (Suc m)
  then show ?thesis
    using interval_sequence_ge_7[of "m - 1"] by (cases m) auto
qed

lemma new_interval_sequence:
  assumes "interval_days row = interval_sequence n"
  shows "new_interval (Some row) True = interval_sequence (Suc n)"
proof (cases n)
  case 0
  with assms show ?thesis by (simp add: new_interval_def)
next
  case (Suc m)
  show ?thesis
  proof (cases m)
    case 0
    with Suc assms show ?thesis by (simp add: new_interval_def)
  next
    case (Suc k)
    with \<open>n = Suc m\<close> assms interval_sequence_ge_7[of k] show ?thesis
      by (simp add: new_interval_def)
  qed
qed

lemma new_interval_in_sequence:
  assumes "\<And>row. prior = Some row \<Longrightarrow> interval_days row \<in> range interval_sequence"
  shows "new_interval prior success \<in> range interval_sequence"
proof (cases success)
  case False
  have "new_interval prior False = interval_sequence 0" by (simp add: new_interval_def)
  then have "new_interval prior False \<in> range interval_sequence" by (metis rangeI)
  with False show ?thesis by simp
next
  case True
  show ?thesis
  proof (cases prior)
    case None
    have "new_interval None True = interval_sequence 0" by (simp add: new_interval_def)
    then have "new_interval None True \<in> range interval_sequence" by (metis rangeI)
    with True None show ?thesis by simp
  next
    case (Some row)
    with assms obtain n where "interval_days row = interval_sequence n" by blast
    from new_interval_sequence[OF this]
    have "new_interval (Some row) True \<in> range interval_sequence" by (metis rangeI)
    with True Some show ?thesis by simp
  qed
qed

section \<open>Facts about the due query\<close>

lemma set_due_join:
  "set (due_join d today) =
     {(p, rs). p \<in> set (problems d) \<and> rs \<in> set (review_schedule d) \<and>
               p_id p = rs_problem_id rs \<and> next_review_date rs \<le> today}"
  by (auto simp: due_join_def)

lemma get_due_reviews_Inr:
  assumes "get_due_reviews w = (Inr ps, w')"
  shows "ps = map fst (due_join (db w) (clock w))" and "db w' = db w"
proof -
  from get_connection_Inr[OF assms[unfolded get_due_reviews_def Let_def]]
  obtain c c' where b: "(case sqlite_call c of
          (Some e, c1) \<Rightarrow> (Inl e, c1)
        | (None, c1) \<Rightarrow> (Inr (map fst (due_join (db c1) (clock w))), c1)) = (Inr ps, c')"
    and f: "db c = db w" "db w' = db c'"
    by blast
  from b f have "ps = map fst (due_join (db w) (clock w)) \<and> db w' = db w"
    by (auto split: prod.splits option.splits dest!: sqlite_call_frame)
  then show "ps = map fst (due_join (db w) (clock w))" and "db w' = db w" by blast+
qed

lemma get_due_reviews_no_faults:
  "faults w = [] \<Longrightarrow> get_due_reviews w = (Inr (map fst (due_join (db w) (clock w))), w)"
  by (simp add: get_due_reviews_def get_connection_def sqlite_call_no_faults)

text \<open>
  Claim C4. A call of \<^verbatim>\<open>update_review_schedule\<close> that returns has written the
  three columns in one upsert of the problem's row: afterwards that row holds today as
  \<open>last_reviewed\<close>, the returned interval and the returned date, and its
  \<open>next_review_date\<close> is \<open>last_reviewed\<close> plus \<open>interval_days\<close> days. The rows of
  the other problems are as before.
\<close>

theorem update_replaces_one_row:
  assumes "update_review_schedule w problem_id success = (Inr r, w')"
  shows "(\<exists>row. select_schedule (db w') problem_id = Some row \<and>
               last_reviewed row = Some (clock w) \<and>
               interval_days row = result_interval_days r \<and>
               next_review_date row = result_next_review_date r \<and>
               next_review_date row = clock w + interval_days row)
       \<and> upsert_schedule (db w) problem_id (result_next_review_date r)
            (result_interval_days r) (clock w) = Inr (db w')
       \<and> (\<forall>q. q \<noteq> problem_id \<longrightarrow> select_schedule (db w') q = select_schedule (db w) q)"
proof -
  note f = update_review_schedule_Inr[OF assms]
  from upsert_schedule_select[OF f(5)] f(1,2)
  have "\<exists>row. select_schedule (db w') problem_id = Some row \<and>
               last_reviewed row = Some (clock w) \<and>
               interval_days row = result_interval_days r \<and>
               next_review_date row = result_next_review_date r \<and>
               next_review_date row = clock w + interval_days row" by auto
  moreover from f(1,2,5)
  have "upsert_schedule (db w) problem_id (result_next_review_date r)
            (result_interval_days r) (clock w) = Inr (db w')" by simp
  moreover from upsert_schedule_other[OF f(5)]
  have "\<forall>q. q \<noteq> problem_id \<longrightarrow> select_schedule (db w') q = select_schedule (db w) q"
    by blast
  ultimately show ?thesis by blast
qed

theorem update_replaces_one_row_witness:
  "update_review_schedule
     (scheduled_world [\<lparr>rs_problem_id = ''two-sum'', next_review_date = 738886,
                        interval_days = 3, ease_factor = 5 / 2,
                        last_reviewed = Some 738883\<rparr>,
                       \<lparr>rs_problem_id = ''valid-parens'', next_review_date = 738890,
                        interval_days = 7, ease_factor = 5 / 2,
                        last_reviewed = Some 738883\<rparr>]) ''two-sum'' True =
     (Inr \<lparr>result_next_review_date = 738893, result_interval_days = 7\<rparr>,
      scheduled_world [\<lparr>rs_problem_id = ''two-sum'', next_review_date = 738893,
                        interval_days = 7, ease_factor = 5 / 2,
                        last_reviewed = Some 738886\<rparr>,
                       \<lparr>rs_problem_id = ''valid-parens'', next_review_date = 738890,
                        interval_days = 7, ease_factor = 5 / 2,
                        last_reviewed = Some 738883\<rparr>])
   \<and> (\<exists>row. select_schedule
               (db (scheduled_world [\<lparr>rs_problem_id = ''two-sum'', next_review_date = 738893,
                        interval_days = 7, ease_factor = 5 / 2,
                        last_reviewed = Some 738886\<rparr>,
                       \<lparr>rs_problem_id = ''valid-parens'', next_review_date = 738890,
                        interval_days = 7, ease_factor = 5 / 2,
                        last_reviewed = Some 738883\<rparr>])) ''two-sum'' = Some row \<and>
             last_reviewed row = Some 738886 \<and> interval_days row = 7 \<and>
             next_review_date row = 738893 \<and>
             next_review_date row = 738886 + interval_days row)"
proof -
  let ?w = "scheduled_world [\<lparr>rs_problem_id = ''two-sum'', next_review_date = 738886,
                        interval_days = 3, ease_factor = 5 / 2,
                        last_reviewed = Some 738883\<rparr>,
                       \<lparr>rs_problem_id = ''valid-parens'', next_review_date = 738890,
                        interval_days = 7, ease_factor = 5 / 2,
                        last_reviewed = Some 738883\<rparr>]"
  let ?w' = "scheduled_world [\<lparr>rs_problem_id = ''two-sum'', next_review_date = 738893,
                        interval_days = 7, ease_factor = 5 / 2,
                        last_reviewed = Some 738886\<rparr>,
                       \<lparr>rs_problem_id = ''valid-parens'', next_review_date = 738890,
                        interval_days = 7, ease_factor = 5 / 2,
                        last_reviewed = Some 738883\<rparr>]"
  let ?r = "\<lparr>result_next_review_date = 738893, result_interval_days = 7\<rparr>"
  have run: "update_review_schedule ?w ''two-sum'' True = (Inr ?r, ?w')"
    by (simp add: eval_defs)
  have "clock ?w = 738886" by (simp add: scheduled_world_def)
  with update_replaces_one_row[OF run] run show ?thesis by simp
qed

text \<open>
  Claim C10. When the prior interval of the problem, if there is one, is at least 1
  (as every interval the scheduler writes is), a call of \<^verbatim>\<open>update_review_schedule\<close>
  that returns, with either verdict, leaves a \<open>next_review_date\<close> of tomorrow or later,
  and \<^verbatim>\<open>get_due_reviews\<close> on the same day does not list the problem.
\<close>

theorem reviewed_problem_not_due_today:
  assumes "update_review_schedule w problem_id success = (Inr r, w')"
    and "\<And>row. select_schedule (db w) problem_id = Some row \<Longrightarrow> 1 \<le> interval_days row"
    and "get_due_reviews (w'\<lparr>faults := fs\<rparr>) = (Inr ps, w'')"
  shows "clock w + 1 \<le> result_next_review_date r
       \<and> (\<exists>row. select_schedule (db w') problem_id = Some row \<and>
                 clock w + 1 \<le> next_review_date row)
       \<and> problem_id \<notin> set (map p_id ps)"
proof -
  note f = update_review_schedule_Inr[OF assms(1)]
  have ivl: "1 \<le> new_interval (select_schedule (db w) problem_id) success"
    using assms(2) by (auto simp: new_interval_def split: option.splits)
  with f(2) have a: "clock w + 1 \<le> result_next_review_date r" by simp
  from upsert_schedule_select[OF f(5)] ivl
  have b: "\<exists>row. select_schedule (db w') problem_id = Some row \<and>
                 clock w + 1 \<le> next_review_date row" by auto
  have c: "problem_id \<notin> set (map p_id ps)"
  proof
    assume "problem_id \<in> set (map p_id ps)"
    then obtain p rs where "(p, rs) \<in> set (due_join (db w') (clock w))" "p_id p = problem_id"
      using get_due_reviews_Inr(1)[OF assms(3)] f(6) by auto
    then have rs: "rs \<in> set (review_schedule (db w'))" "rs_problem_id rs = problem_id"
      "next_review_date rs \<le> clock w"
      by (auto simp: set_due_join)
    from upsert_schedule_rows[OF f(5) rs(1)] rs(2,3) ivl show False by auto
  qed
  from a b c show ?thesis by blast
qed

theorem reviewed_problem_not_due_today_witness:
  "update_review_schedule
     (scheduled_world [\<lparr>rs_problem_id = ''two-sum'', next_review_date = 738880,
                        interval_days = 3, ease_factor = 5 / 2,
                        last_reviewed = Some 738877\<rparr>,
                       \<lparr>rs_problem_id = ''valid-parens'', next_review_date = 738886,
                        interval_days = 7, ease_factor = 5 / 2,
                        last_reviewed = Some 738879\<rparr>]) ''two-sum'' True =
     (Inr \<lparr>result_next_review_date = 738893, result_interval_days = 7\<rparr>,
      scheduled_world [\<lparr>rs_problem_id = ''two-sum'', next_review_date = 738893,
                        interval_days = 7, ease_factor = 5 / 2,
                        last_reviewed = Some 738886\<rparr>,
                       \<lparr>rs_problem_id = ''valid-parens'', next_review_date = 738886,
                        interval_days = 7, ease_factor = 5 / 2,
                        last_reviewed = Some 738879\<rparr>])
   \<and> select_schedule
        (db (scheduled_world [\<lparr>rs_problem_id = ''two-sum'', next_review_date = 738880,
                        interval_days = 3, ease_factor = 5 / 2,
                        last_reviewed = Some 738877\<rparr>,
                       \<lparr>rs_problem_id = ''valid-parens'', next_review_date = 738886,
                        interval_days = 7, ease_factor = 5 / 2,
                        last_reviewed = Some 738879\<rparr>])) ''two-sum'' =
       Some \<lparr>rs_problem_id = ''two-sum'', next_review_date = 738880,
                        interval_days = 3, ease_factor = 5 / 2,
                        last_reviewed = Some 738877\<rparr>
   \<and> fst (get_due_reviews
        ((scheduled_world [\<lparr>rs_problem_id = ''two-sum'', next_review_date = 738893,
                        interval_days = 7, ease_factor = 5 / 2,
                        last_reviewed = Some 738886\<rparr>,
                       \<lparr>rs_problem_id = ''valid-parens'', next_review_date = 738886,
                        interval_days = 7, ease_factor = 5 / 2,
                        last_reviewed = Some 738879\<rparr>])\<lparr>faults := []\<rparr>)) =
       Inr [example_problems ! 1]
   \<and> ''two-sum'' \<notin> set (map p_id [example_problems ! 1])"
proof -
  let ?row = "\<lparr>rs_problem_id = ''two-sum'', next_review_date = 738880,
                        interval_days = 3, ease_factor = 5 / 2,
                        last_reviewed = Some 738877\<rparr>"
  let ?w = "scheduled_world [?row,
                       \<lparr>rs_problem_id = ''valid-parens'', next_review_date = 738886,
                        interval_days = 7, ease_factor = 5 / 2,
                        last_reviewed = Some 738879\<rparr>]"
  let ?w' = "scheduled_world [\<lparr>rs_problem_id = ''two-sum'', next_review_date = 738893,
                        interval_days = 7, ease_factor = 5 / 2,
                        last_reviewed = Some 738886\<rparr>,
                       \<lparr>rs_problem_id = ''valid-parens'', next_review_date = 738886,
                        interval_days = 7, ease_factor = 5 / 2,
                        last_reviewed = Some 738879\<rparr>]"
  let ?r = "\<lparr>result_next_review_date = 738893, result_interval_days = 7\<rparr>"
  have run: "update_review_schedule ?w ''two-sum'' True = (Inr ?r, ?w')"
    by (simp add: eval_defs)
  have prior: "select_schedule (db ?w) ''two-sum'' = Some ?row"
    by (simp add: eval_defs)
  then have pos: "\<And>row. select_schedule (db ?w) ''two-sum'' = Some row \<Longrightarrow> 1 \<le> interval_days row"
    by auto
  have due: "get_due_reviews (?w'\<lparr>faults := []\<rparr>) =
               (Inr [example_problems ! 1], ?w'\<lparr>faults := []\<rparr>)"
    by (simp add: get_due_reviews_def due_join_def eval_defs)
  from reviewed_problem_not_due_today[OF run pos due]
  have "''two-sum'' \<notin> set (map p_id [example_problems ! 1])" by blast
  with run prior due show ?thesis by simp
qed

section \<open>Runs of successes\<close>

lemma update_success_step:
  assumes "faults w = []"
    and "select_schedule (db w) problem_id = Some row"
    and "interval_days row = interval_sequence k"
    and "0 < clock w" and "clock w + interval_sequence (Suc k) \<le> MAXORDINAL"
  shows "\<exists>d row'. update_review_schedule w problem_id True =
           (Inr \<lparr>result_next_review_date = clock w + interval_sequence (Suc k),
                 result_interval_days = interval_sequence (Suc k)\<rparr>, w\<lparr>db := d\<rparr>)
         \<and> select_schedule d problem_id = Some row'
         \<and> interval_days row' = interval_sequence (Suc k)"
proof -
  have ni: "new_interval (select_schedule (db w) problem_id) True = interval_sequence (Suc k)"
    using assms(2,3) by (simp add: new_interval_sequence)
  have "problem_id \<in> set (map rs_problem_id (review_schedule (db w)))"
    using assms(2) select_schedule_None[of "db w" problem_id] by auto
  then obtain d where d: "upsert_schedule (db w) problem_id
      (clock w + interval_sequence (Suc k)) (interval_sequence (Suc k)) (clock w) = Inr d"
    by (auto simp: upsert_schedule_def)
  from upsert_schedule_select[OF d] obtain row' where
    "select_schedule d problem_id = Some row'" "interval_days row' = interval_sequence (Suc k)"
    by blast
  moreover have "update_review_schedule w problem_id True =
           (Inr \<lparr>result_next_review_date = clock w + interval_sequence (Suc k),
                 result_interval_days = interval_sequence (Suc k)\<rparr>, w\<lparr>db := d\<rparr>)"
    using assms(1,4,5) interval_sequence_pos[of "Suc k"] d
    by (simp add: update_review_schedule_no_faults ni timedelta_def date_add_def Let_def
          MAXORDINAL_def del: interval_sequence.simps)
  ultimately show ?thesis by blast
qed

lemma record_successes_from:
  assumes "faults w = []"
    and "select_schedule (db w) problem_id = Some row"
    and "interval_days row = interval_sequence k"
    and "\<forall>i<length days. 0 < days ! i \<and> days ! i + interval_sequence (Suc k + i) \<le> MAXORDINAL"
  shows "record_successes w problem_id days =
           map (\<lambda>i. Inr \<lparr>result_next_review_date = days ! i + interval_sequence (Suc k + i),
                          result_interval_days = interval_sequence (Suc k + i)\<rparr>)
               [0..<length days]"
  using assms
proof (induction days arbitrary: w row k)
  case Nil
  then show ?case by simp
next
  case (Cons today days)
  let ?w = "w\<lparr>clock := today\<rparr>"
  from Cons.prems(4) have t: "0 < today" "today + interval_sequence (Suc k) \<le> MAXORDINAL"
    by force+
  from update_success_step[of ?w problem_id row k] Cons.prems(1-3) t
  obtain d row' where u: "update_review_schedule ?w problem_id True =
           (Inr \<lparr>result_next_review_date = today + interval_sequence (Suc k),
                 result_interval_days = interval_sequence (Suc k)\<rparr>, ?w\<lparr>db := d\<rparr>)"
    and r: "select_schedule d problem_id = Some row'"
           "interval_days row' = interval_sequence (Suc k)"
    by auto
  have rest: "\<forall>i<length days. 0 < days ! i \<and>
                days ! i + interval_sequence (Suc (Suc k) + i) \<le> MAXORDINAL"
    using Cons.prems(4) by fastforce
  have "record_successes (?w\<lparr>db := d\<rparr>) problem_id days =
           map (\<lambda>i. Inr \<lparr>result_next_review_date = days ! i + interval_sequence (Suc (Suc k) + i),
                          result_interval_days = interval_sequence (Suc (Suc k) + i)\<rparr>)
               [0..<length days]"
    using Cons.IH[of "?w\<lparr>db := d\<rparr>" row' "Suc k"] Cons.prems(1) r rest by simp
  then show ?case using u
    by (simp add: upt_conv_Cons map_Suc_upt[symmetric] del: upt_Suc interval_sequence.simps)
qed

lemma interval_sequence_doubling: "interval_sequence (Suc (Suc n)) = 7 * 2 ^ n"
  by (induction n) auto

lemma interval_sequence_cases:
  "interval_sequence n = 1 \<or> interval_sequence n = 3 \<or> (\<exists>k. interval_sequence n = 7 * 2 ^ k)"
proof (cases n)
  case 0
  then show ?thesis by simp
next
  case (Suc m)
  then show ?thesis
    using interval_sequence_doubling by (cases m) auto
qed

text \<open>
  Claim C2. A call with \<open>success = True\<close> that returns, returns interval 1 when the
  problem has no schedule row, 3 when the stored interval is 1, 7 when it is 3, and
  twice the stored interval otherwise. Hence a run of successes on a problem without a
  row returns the intervals 1, 3, 7, 14, 28, 56, ... in this order, as long as the store
  does not fail and each review date is on or before 9999-12-31.
\<close>

theorem success_interval_progression:
  "(update_review_schedule w problem_id True = (Inr r, w') \<longrightarrow>
      result_interval_days r =
        (case select_schedule (db w) problem_id of
           None \<Rightarrow> 1
         | Some row \<Rightarrow>
             if interval_days row = 1 then 3
             else if interval_days row = 3 then 7
             else interval_days row * 2))
   \<and> (faults w = [] \<and> problem_id \<in> set (map p_id (problems (db w))) \<and>
      select_schedule (db w) problem_id = None \<and>
      (\<forall>i<length days. 0 < days ! i \<and> days ! i + interval_sequence i \<le> MAXORDINAL) \<longrightarrow>
      record_successes w problem_id days =
        map (\<lambda>i. Inr \<lparr>result_next_review_date = days ! i + interval_sequence i,
                       result_interval_days = interval_sequence i\<rparr>)
            [0..<length days])"
proof (intro conjI impI)
  assume "update_review_schedule w problem_id True = (Inr r, w')"
  from update_review_schedule_Inr(1)[OF this]
  show "result_interval_days r =
        (case select_schedule (db w) problem_id of
           None \<Rightarrow> 1
         | Some row \<Rightarrow>
             if interval_days row = 1 then 3
             else if interval_days row = 3 then 7
             else interval_days row * 2)"
    by (simp add: new_interval_def)
next
  assume h: "faults w = [] \<and> problem_id \<in> set (map p_id (problems (db w))) \<and>
      select_schedule (db w) problem_id = None \<and>
      (\<forall>i<length days. 0 < days ! i \<and> days ! i + interval_sequence i \<le> MAXORDINAL)"
  show "record_successes w problem_id days =
        map (\<lambda>i. Inr \<lparr>result_next_review_date = days ! i + interval_sequence i,
                       result_interval_days = interval_sequence i\<rparr>)
            [0..<length days]"
  proof (cases days)
    case Nil
    then show ?thesis by simp
  next
    case (Cons today rest)
    let ?w = "w\<lparr>clock := today\<rparr>"
    from h Cons have t: "0 < today" "today + 1 \<le> MAXORDINAL" by force+
    from h have "problem_id \<notin> set (map rs_problem_id (review_schedule (db w)))"
      using select_schedule_None[of "db w" problem_id] by simp
    with h obtain d where d: "upsert_schedule (db ?w) problem_id (today + 1) 1 today = Inr d"
      by (auto simp: upsert_schedule_def)
    from upsert_schedule_select[OF d] obtain row where
      row: "select_schedule d problem_id = Some row" "interval_days row = interval_sequence 0"
      by auto
    have u: "update_review_schedule ?w problem_id True =
               (Inr \<lparr>result_next_review_date = today + 1, result_interval_days = 1\<rparr>,
                ?w\<lparr>db := d\<rparr>)"
      using h t d
      by (simp add: update_review_schedule_no_faults new_interval_def timedelta_def
            date_add_def Let_def)
    have rest: "\<forall>i<length rest. 0 < rest ! i \<and>
                  rest ! i + interval_sequence (Suc 0 + i) \<le> MAXORDINAL"
      using h Cons by fastforce
    have "record_successes (?w\<lparr>db := d\<rparr>) problem_id rest =
           map (\<lambda>i. Inr \<lparr>result_next_review_date = rest ! i + interval_sequence (Suc 0 + i),
                          result_interval_days = interval_sequence (Suc 0 + i)\<rparr>)
               [0..<length rest]"
      using record_successes_from[of "?w\<lparr>db := d\<rparr>" problem_id row 0 rest] h row rest
      by simp
    then show ?thesis using u Cons
      by (simp add: upt_conv_Cons map_Suc_upt[symmetric]
            del: upt_Suc interval_sequence.simps(2-))
  qed
qed

theorem success_interval_progression_witness:
  "update_review_schedule
     (scheduled_world [\<lparr>rs_problem_id = ''two-sum'', next_review_date = 738886,
                        interval_days = 28, ease_factor = 5 / 2,
                        last_reviewed = Some 738858\<rparr>]) ''two-sum'' True =
     (Inr \<lparr>result_next_review_date = 738942, result_interval_days = 56\<rparr>,
      scheduled_world [\<lparr>rs_problem_id = ''two-sum'', next_review_date = 738942,
                        interval_days = 56, ease_factor = 5 / 2,
                        last_reviewed = Some 738886\<rparr>])
   \<and> record_successes (fresh_world 738886) ''two-sum''
        [738886, 738887, 738890, 738897, 738911, 738939] =
      [Inr \<lparr>result_next_review_date = 738887, result_interval_days = 1\<rparr>,
       Inr \<lparr>result_next_review_date = 738890, result_interval_days = 3\<rparr>,
       Inr \<lparr>result_next_review_date = 738897, result_interval_days = 7\<rparr>,
       Inr \<lparr>result_next_review_date = 738911, result_interval_days = 14\<rparr>,
       Inr \<lparr>result_next_review_date = 738939, result_interval_days = 28\<rparr>,
       Inr \<lparr>result_next_review_date = 738995, result_interval_days = 56\<rparr>]"
proof -
  let ?days = "[738886, 738887, 738890, 738897, 738911, 738939] :: int list"
  have run: "update_review_schedule
     (scheduled_world [\<lparr>rs_problem_id = ''two-sum'', next_review_date = 738886,
                        interval_days = 28, ease_factor = 5 / 2,
                        last_reviewed = Some 738858\<rparr>]) ''two-sum'' True =
     (Inr \<lparr>result_next_review_date = 738942, result_interval_days = 56\<rparr>,
      scheduled_world [\<lparr>rs_problem_id = ''two-sum'', next_review_date = 738942,
                        interval_days = 56, ease_factor = 5 / 2,
                        last_reviewed = Some 738886\<rparr>])"
    by (simp add: eval_defs)
  have len: "length ?days = Suc (Suc (Suc (Suc (Suc (Suc 0)))))" by simp
  have pre: "faults (fresh_world 738886) = [] \<and>
      ''two-sum'' \<in> set (map p_id (problems (db (fresh_world 738886)))) \<and>
      select_schedule (db (fresh_world 738886)) ''two-sum'' = None \<and>
      (\<forall>i<length ?days. 0 < ?days ! i \<and> ?days ! i + interval_sequence i \<le> MAXORDINAL)"
    unfolding len by (simp add: eval_defs All_less_Suc)
  from success_interval_progression[of _ "''two-sum''" _ _ ?days] pre
  have "record_successes (fresh_world 738886) ''two-sum'' ?days =
        map (\<lambda>i. Inr \<lparr>result_next_review_date = ?days ! i + interval_sequence i,
                       result_interval_days = interval_sequence i\<rparr>)
            [0..<length ?days]" by blast
  then have "record_successes (fresh_world 738886) ''two-sum'' ?days =
      [Inr \<lparr>result_next_review_date = 738887, result_interval_days = 1\<rparr>,
       Inr \<lparr>result_next_review_date = 738890, result_interval_days = 3\<rparr>,
       Inr \<lparr>result_next_review_date = 738897, result_interval_days = 7\<rparr>,
       Inr \<lparr>result_next_review_date = 738911, result_interval_days = 14\<rparr>,
       Inr \<lparr>result_next_review_date = 738939, result_interval_days = 28\<rparr>,
       Inr \<lparr>result_next_review_date = 738995, result_interval_days = 56\<rparr>]"
    unfolding len by (simp add: upt_rec[of 0] upt_rec[of "Suc _"])
  with run show ?thesis by blast
qed

text \<open>
  Claim C3. In every world reached from an empty schedule table, each stored
  \<open>interval_days\<close> is a member of the sequence 1, 3, 7, 14, 28, 56, ...: it is 1, 3 or
  7 times a power of two.
\<close>

theorem reachable_intervals_in_sequence:
  assumes "reachable w" and "row \<in> set (review_schedule (db w))"
  shows "interval_days row \<in> range interval_sequence
       \<and> (interval_days row = 1 \<or> interval_days row = 3 \<or>
          (\<exists>k. interval_days row = 7 * 2 ^ k))"
proof -
  have "interval_days row \<in> range interval_sequence"
    using assms
  proof (induction arbitrary: row rule: reachable.induct)
    case (empty_schedule w)
    then show ?case by simp
  next
    case (outcome w problem_id success res w')
    show ?case
    proof (cases res)
      case (Inl e)
      with outcome.hyps(2) have "db w' = db w"
        using update_review_schedule_Inl by blast
      with outcome show ?thesis by simp
    next
      case (Inr r)
      note f = update_review_schedule_Inr[OF outcome.hyps(2)[unfolded Inr]]
      have prior: "\<And>old. select_schedule (db w) problem_id = Some old
                    \<Longrightarrow> interval_days old \<in> range interval_sequence"
        using outcome.IH select_schedule_mem by blast
      from upsert_schedule_rows[OF f(5) outcome.prems]
      show ?thesis
      proof
        assume "row \<in> set (review_schedule (db w)) \<and> rs_problem_id row \<noteq> problem_id"
        then show ?thesis using outcome.IH by blast
      next
        assume "rs_problem_id row = problem_id \<and>
                next_review_date row =
                  clock w + new_interval (select_schedule (db w) problem_id) success \<and>
                interval_days row = new_interval (select_schedule (db w) problem_id) success \<and>
                last_reviewed row = Some (clock w)"
        then show ?thesis using new_interval_in_sequence[OF prior] by simp
      qed
    qed
  next
    case (elsewhere w w')
    then show ?case by simp
  qed
  moreover from this obtain n where "interval_days row = interval_sequence n" by blast
  with interval_sequence_cases[of n]
  have "interval_days row = 1 \<or> interval_days row = 3 \<or>
          (\<exists>k. interval_days row = 7 * 2 ^ k)" by simp
  ultimately show ?thesis by blast
qed

theorem reachable_intervals_in_sequence_witness:
  "reachable (scheduled_world [\<lparr>rs_problem_id = ''two-sum'', next_review_date = 738889,
                                 interval_days = 3, ease_factor = 5 / 2,
                                 last_reviewed = Some 738886\<rparr>])
   \<and> \<lparr>rs_problem_id = ''two-sum'', next_review_date = 738889, interval_days = 3,
       ease_factor = 5 / 2, last_reviewed = Some 738886\<rparr>
     \<in> set (review_schedule (db (scheduled_world
          [\<lparr>rs_problem_id = ''two-sum'', next_review_date = 738889,
            interval_days = 3, ease_factor = 5 / 2, last_reviewed = Some 738886\<rparr>])))
   \<and> interval_days \<lparr>rs_problem_id = ''two-sum'', next_review_date = 738889,
        interval_days = 3, ease_factor = 5 / 2, last_reviewed = Some 738886\<rparr>
     \<in> range interval_sequence"
proof -
  let ?r1 = "\<lparr>rs_problem_id = ''two-sum'', next_review_date = 738887, interval_days = 1,
              ease_factor = 5 / 2, last_reviewed = Some 738886\<rparr>"
  let ?r2 = "\<lparr>rs_problem_id = ''two-sum'', next_review_date = 738889, interval_days = 3,
              ease_factor = 5 / 2, last_reviewed = Some 738886\<rparr>"
  have r0: "reachable (fresh_world 738886)"
    by (rule reachable.empty_schedule) (simp add: fresh_world_def)
  have u1: "update_review_schedule (fresh_world 738886) ''two-sum'' True =
              (Inr \<lparr>result_next_review_date = 738887, result_interval_days = 1\<rparr>,
               scheduled_world [?r1])"
    by (simp add: eval_defs)
  have r1: "reachable (scheduled_world [?r1])"
    by (rule reachable.outcome[OF r0 u1])
  have u2: "update_review_schedule (scheduled_world [?r1]) ''two-sum'' True =
              (Inr \<lparr>result_next_review_date = 738889, result_interval_days = 3\<rparr>,
               scheduled_world [?r2])"
    by (simp add: eval_defs)
  have r2: "reachable (scheduled_world [?r2])"
    by (rule reachable.outcome[OF r1 u2])
  have m: "?r2 \<in> set (review_schedule (db (scheduled_world [?r2])))"
    by (simp add: scheduled_world_def)
  from reachable_intervals_in_sequence[OF r2 m] r2 m show ?thesis by blast
qed

section \<open>Facts about the ordering of the due query\<close>

lemma select_schedule_distinct:
  assumes "distinct (map rs_problem_id (review_schedule d))"
    and "rs \<in> set (review_schedule d)"
  shows "select_schedule d (rs_problem_id rs) = Some rs"
proof -
  have "distinct (map rs_problem_id rows) \<Longrightarrow> rs \<in> set rows \<Longrightarrow>
        find (\<lambda>r. rs_problem_id r = rs_problem_id rs) rows = Some rs" for rows
    by (induction rows) force+
  with assms show ?thesis by (simp add: select_schedule_def)
qed

lemma sorted_due_join:
  "sorted (map (\<lambda>(p, rs). next_review_date rs) (due_join d today))"
  by (simp add: due_join_def)

lemma due_join_schedule:
  assumes "distinct (map rs_problem_id (review_schedule d))"
    and "(p, rs) \<in> set (due_join d today)"
  shows "select_schedule d (p_id p) = Some rs"
  using assms select_schedule_distinct[of d rs] by (auto simp: set_due_join)

lemma distinct_due_join:
  assumes "distinct (map rs_problem_id (review_schedule d))"
    and "distinct (map p_id (problems d))"
  shows "distinct (map fst (due_join d today))"
proof -
  have "distinct (problems d)" "distinct (review_schedule d)"
    using assms by (auto simp: distinct_map)
  then have "distinct (due_join d today)"
    by (simp add: due_join_def distinct_product)
  moreover have "inj_on fst (set (due_join d today))"
  proof (rule inj_onI)
    fix x y
    assume x: "x \<in> set (due_join d today)" and y: "y \<in> set (due_join d today)"
      and eq: "fst x = fst y"
    have "select_schedule d (p_id (fst x)) = Some (snd x)"
      using due_join_schedule[OF assms(1), of "fst x" "snd x" today] x by simp
    moreover have "select_schedule d (p_id (fst y)) = Some (snd y)"
      using due_join_schedule[OF assms(1), of "fst y" "snd y" today] y by simp
    ultimately have "snd x = snd y" using eq by simp
    with eq show "x = y" by (simp add: prod_eq_iff)
  qed
  ultimately show ?thesis by (simp add: distinct_map)
qed

text \<open>
  Claim C5. With the primary keys of the two tables respected, a call of
  \<^verbatim>\<open>get_due_reviews\<close> that returns, returns exactly the problems whose schedule row
  has a \<open>next_review_date\<close> on or before today, each once, in ascending order of that
  date, and nothing when there is no schedule row. The call returns when the store does
  not fail. Which of two problems with equal dates comes first is not stated.
\<close>

theorem due_reviews_exact_and_sorted:
  assumes "distinct (map rs_problem_id (review_schedule (db w)))"
    and "distinct (map p_id (problems (db w)))"
  shows "(get_due_reviews w = (Inr ps, w') \<longrightarrow>
            set ps = {p \<in> set (problems (db w)).
                        \<exists>rs. select_schedule (db w) (p_id p) = Some rs \<and>
                             next_review_date rs \<le> clock w}
          \<and> distinct ps
          \<and> sorted (map (\<lambda>p. next_review_date (the (select_schedule (db w) (p_id p)))) ps)
          \<and> (review_schedule (db w) = [] \<longrightarrow> ps = []))
       \<and> (faults w = [] \<longrightarrow> (\<exists>qs. get_due_reviews w = (Inr qs, w)))"
proof (intro conjI impI)
  assume a: "get_due_reviews w = (Inr ps, w')"
  note ps = get_due_reviews_Inr(1)[OF a]
  let ?J = "due_join (db w) (clock w)"
  show "set ps = {p \<in> set (problems (db w)).
                        \<exists>rs. select_schedule (db w) (p_id p) = Some rs \<and>
                             next_review_date rs \<le> clock w}"
  proof (intro set_eqI iffI)
    fix p assume "p \<in> set ps"
    then obtain rs where j: "(p, rs) \<in> set ?J" using ps by auto
    from due_join_schedule[OF assms(1) j] j
    show "p \<in> {p \<in> set (problems (db w)).
                        \<exists>rs. select_schedule (db w) (p_id p) = Some rs \<and>
                             next_review_date rs \<le> clock w}"
      by (auto simp: set_due_join)
  next
    fix p assume "p \<in> {p \<in> set (problems (db w)).
                        \<exists>rs. select_schedule (db w) (p_id p) = Some rs \<and>
                             next_review_date rs \<le> clock w}"
    then obtain rs where "p \<in> set (problems (db w))"
      "select_schedule (db w) (p_id p) = Some rs" "next_review_date rs \<le> clock w"
      by blast
    then have "(p, rs) \<in> set ?J"
      using select_schedule_mem[of "db w" "p_id p" rs] by (auto simp: set_due_join)
    then show "p \<in> set ps" unfolding ps by force
  qed
  show "distinct ps" unfolding ps by (rule distinct_due_join[OF assms])
  have "map ((\<lambda>p. next_review_date (the (select_schedule (db w) (p_id p)))) \<circ> fst) ?J
        = map (\<lambda>(p, rs). next_review_date rs) ?J"
    using due_join_schedule[OF assms(1)] by (auto simp: map_eq_conv)
  then show "sorted (map (\<lambda>p. next_review_date (the (select_schedule (db w) (p_id p)))) ps)"
    unfolding ps using sorted_due_join[of "db w" "clock w"] by (simp only: map_map)
  show "ps = []" if "review_schedule (db w) = []"
  proof -
    have "set (due_join (db w) (clock w)) = {}" using that by (simp add: set_due_join)
    then show ?thesis unfolding ps by simp
  qed
next
  assume "faults w = []"
  then show "\<exists>qs. get_due_reviews w = (Inr qs, w)"
    by (simp add: get_due_reviews_no_faults)
qed

theorem due_reviews_exact_and_sorted_witness:
  "distinct (map rs_problem_id (review_schedule (db (scheduled_world
      [\<lparr>rs_problem_id = ''valid-parens'', next_review_date = 738886, interval_days = 3,
        ease_factor = 5 / 2, last_reviewed = Some 738883\<rparr>,
       \<lparr>rs_problem_id = ''longest-substring'', next_review_date = 738887,
        interval_days = 1, ease_factor = 5 / 2, last_reviewed = Some 738886\<rparr>,
       \<lparr>rs_problem_id = ''two-sum'', next_review_date = 738885, interval_days = 7,
        ease_factor = 5 / 2, last_reviewed = Some 738878\<rparr>]))))
   \<and> distinct (map p_id (problems (db (scheduled_world
      [\<lparr>rs_problem_id = ''valid-parens'', next_review_date = 738886, interval_days = 3,
        ease_factor = 5 / 2, last_reviewed = Some 738883\<rparr>,
       \<lparr>rs_problem_id = ''longest-substring'', next_review_date = 738887,
        interval_days = 1, ease_factor = 5 / 2, last_reviewed = Some 738886\<rparr>,
       \<lparr>rs_problem_id = ''two-sum'', next_review_date = 738885, interval_days = 7,
        ease_factor = 5 / 2, last_reviewed = Some 738878\<rparr>]))))
   \<and> fst (get_due_reviews (scheduled_world
      [\<lparr>rs_problem_id = ''valid-parens'', next_review_date = 738886, interval_days = 3,
        ease_factor = 5 / 2, last_reviewed = Some 738883\<rparr>,
       \<lparr>rs_problem_id = ''longest-substring'', next_review_date = 738887,
        interval_days = 1, ease_factor = 5 / 2, last_reviewed = Some 738886\<rparr>,
       \<lparr>rs_problem_id = ''two-sum'', next_review_date = 738885, interval_days = 7,
        ease_factor = 5 / 2, last_reviewed = Some 738878\<rparr>])) =
       Inr [example_problems ! 0, example_problems ! 1]
   \<and> distinct [example_problems ! 0, example_problems ! 1]
   \<and> sorted (map (\<lambda>p. next_review_date (the (select_schedule (db (scheduled_world
      [\<lparr>rs_problem_id = ''valid-parens'', next_review_date = 738886, interval_days = 3,
        ease_factor = 5 / 2, last_reviewed = Some 738883\<rparr>,
       \<lparr>rs_problem_id = ''longest-substring'', next_review_date = 738887,
        interval_days = 1, ease_factor = 5 / 2, last_reviewed = Some 738886\<rparr>,
       \<lparr>rs_problem_id = ''two-sum'', next_review_date = 738885, interval_days = 7,
        ease_factor = 5 / 2, last_reviewed = Some 738878\<rparr>])) (p_id p))))
        [example_problems ! 0, example_problems ! 1])"
proof -
  let ?w = "scheduled_world
      [\<lparr>rs_problem_id = ''valid-parens'', next_review_date = 738886, interval_days = 3,
        ease_factor = 5 / 2, last_reviewed = Some 738883\<rparr>,
       \<lparr>rs_problem_id = ''longest-substring'', next_review_date = 738887,
        interval_days = 1, ease_factor = 5 / 2, last_reviewed = Some 738886\<rparr>,
       \<lparr>rs_problem_id = ''two-sum'', next_review_date = 738885, interval_days = 7,
        ease_factor = 5 / 2, last_reviewed = Some 738878\<rparr>]"
  have k1: "distinct (map rs_problem_id (review_schedule (db ?w)))"
    by (simp add: scheduled_world_def)
  have k2: "distinct (map p_id (problems (db ?w)))"
    by (simp add: scheduled_world_def example_problems_def)
  have run: "get_due_reviews ?w = (Inr [example_problems ! 0, example_problems ! 1], ?w)"
    by (simp add: get_due_reviews_def due_join_def eval_defs)
  from due_reviews_exact_and_sorted[OF k1 k2, of "[example_problems ! 0, example_problems ! 1]" ?w]
    run
  have "distinct [example_problems ! 0, example_problems ! 1]
    \<and> sorted (map (\<lambda>p. next_review_date (the (select_schedule (db ?w) (p_id p))))
        [example_problems ! 0, example_problems ! 1])" by blast
  with k1 k2 run show ?thesis by simp
qed

section \<open>Facts about the success rate\<close>

lemma sum_passed_count:
  "sum_list (map (\<lambda>s. if passed s = Some True then 1 else 0)
       (filter (\<lambda>s. sub_problem_id s = problem_id \<and> passed s \<noteq> None) subs)) =
     int (length (filter (\<lambda>s. sub_problem_id s = problem_id \<and> passed s = Some True) subs))"
  by (induction subs) auto

lemma success_rate_query_counts:
  "success_rate_query d problem_id =
   (int (length (filter (\<lambda>s. sub_problem_id s = problem_id \<and> passed s = Some True)
                   (submissions d))),
    int (length (filter (\<lambda>s. sub_problem_id s = problem_id \<and> passed s \<noteq> None)
                   (submissions d))))"
proof (cases "filter (\<lambda>s. sub_problem_id s = problem_id \<and> passed s \<noteq> None)
                (submissions d) = []")
  case True
  with sum_passed_count[of problem_id "submissions d"] show ?thesis
    by (simp add: success_rate_query_def del: not_None_eq)
next
  case False
  with sum_passed_count[of problem_id "submissions d"] show ?thesis
    by (simp add: success_rate_query_def del: not_None_eq)
qed

lemma get_success_rate_no_faults:
  "faults w = [] \<Longrightarrow>
   get_success_rate w problem_id = (Inr (success_rate_query (db w) problem_id), w)"
  by (simp add: get_success_rate_def get_connection_def sqlite_call_no_faults)

lemma get_success_rate_Inr:
  assumes "get_success_rate w problem_id = (Inr v, w')"
  shows "v = success_rate_query (db w) problem_id" and "db w' = db w"
proof -
  from get_connection_Inr[OF assms[unfolded get_success_rate_def]]
  obtain c c' where b: "(case sqlite_call c of
         (Some e, c1) \<Rightarrow> (Inl e, c1)
       | (None, c1) \<Rightarrow> (Inr (success_rate_query (db c1) problem_id), c1)) = (Inr v, c')"
    and f: "db c = db w" "db w' = db c'"
    by blast
  from b f have "v = success_rate_query (db w) problem_id \<and> db w' = db w"
    by (auto split: prod.splits option.splits dest!: sqlite_call_frame)
  then show "v = success_rate_query (db w) problem_id" and "db w' = db w" by blast+
qed

text \<open>
  Claim C7. A call of \<^verbatim>\<open>get_success_rate\<close> that returns, returns the number of
  submissions of the problem that passed and the number that have a verdict; the
  submissions without a verdict count in neither. For the verdicts pass, fail, pass
  this is (2, 3); for a single submission without a verdict it is (0, 0). The call
  returns when the store does not fail.
\<close>

theorem success_rate_counts_graded:
  "(get_success_rate w problem_id = (Inr (p, t), w') \<longrightarrow>
      p = int (length (filter (\<lambda>s. sub_problem_id s = problem_id \<and> passed s = Some True)
                         (submissions (db w)))) \<and>
      t = int (length (filter (\<lambda>s. sub_problem_id s = problem_id \<and> passed s \<noteq> None)
                         (submissions (db w)))))
   \<and> (faults w = [] \<longrightarrow> (\<exists>v. get_success_rate w problem_id = (Inr v, w)))
   \<and> (faults w = [] \<and>
      map passed (filter (\<lambda>s. sub_problem_id s = problem_id) (submissions (db w))) =
        [Some True, Some False, Some True] \<longrightarrow>
      fst (get_success_rate w problem_id) = Inr (2, 3))
   \<and> (faults w = [] \<and>
      map passed (filter (\<lambda>s. sub_problem_id s = problem_id) (submissions (db w))) =
        [None] \<longrightarrow>
      fst (get_success_rate w problem_id) = Inr (0, 0))"
proof -
  have sf1: "length (filter (\<lambda>s. sub_problem_id s = problem_id \<and> passed s = Some True) subs) =
      length (filter (\<lambda>v. v = Some True)
                (map passed (filter (\<lambda>s. sub_problem_id s = problem_id) subs)))" for subs
    by (induction subs) auto
  have sf2: "length (filter (\<lambda>s. sub_problem_id s = problem_id \<and> passed s \<noteq> None) subs) =
      length (filter (\<lambda>v. v \<noteq> None)
                (map passed (filter (\<lambda>s. sub_problem_id s = problem_id) subs)))" for subs
    by (induction subs) auto
  have a: "get_success_rate w problem_id = (Inr (p, t), w') \<longrightarrow>
      p = int (length (filter (\<lambda>s. sub_problem_id s = problem_id \<and> passed s = Some True)
                         (submissions (db w)))) \<and>
      t = int (length (filter (\<lambda>s. sub_problem_id s = problem_id \<and> passed s \<noteq> None)
                         (submissions (db w))))"
    using get_success_rate_Inr(1)[of w problem_id "(p, t)" w']
    by (simp add: success_rate_query_counts del: not_None_eq)
  have b: "faults w = [] \<longrightarrow> (\<exists>v. get_success_rate w problem_id = (Inr v, w))"
    by (simp add: get_success_rate_no_faults)
  have c: "faults w = [] \<and>
      map passed (filter (\<lambda>s. sub_problem_id s = problem_id) (submissions (db w))) =
        [Some True, Some False, Some True] \<longrightarrow>
      fst (get_success_rate w problem_id) = Inr (2, 3)"
    by (simp add: get_success_rate_no_faults success_rate_query_counts sf1 sf2
          del: not_None_eq)
  have d: "faults w = [] \<and>
      map passed (filter (\<lambda>s. sub_problem_id s = problem_id) (submissions (db w))) =
        [None] \<longrightarrow>
      fst (get_success_rate w problem_id) = Inr (0, 0)"
    by (simp add: get_success_rate_no_faults success_rate_query_counts sf1 sf2
          del: not_None_eq)
  from a b c d show ?thesis by blast
qed

theorem success_rate_counts_graded_witness:
  "faults graded_world = []
   \<and> map passed (filter (\<lambda>s. sub_problem_id s = ''two-sum'') (submissions (db graded_world))) =
       [Some True, Some False, Some True]
   \<and> fst (get_success_rate graded_world ''two-sum'') = Inr (2, 3)
   \<and> map passed (filter (\<lambda>s. sub_problem_id s = ''valid-parens'')
        (submissions (db graded_world))) = [None]
   \<and> fst (get_success_rate graded_world ''valid-parens'') = Inr (0, 0)"
proof -
  have f: "faults graded_world = []" by (simp add: graded_world_def)
  have h1: "map passed (filter (\<lambda>s. sub_problem_id s = ''two-sum'')
              (submissions (db graded_world))) = [Some True, Some False, Some True]"
    by (simp add: graded_world_def example_submissions_def)
  have h2: "map passed (filter (\<lambda>s. sub_problem_id s = ''valid-parens'')
              (submissions (db graded_world))) = [None]"
    by (simp add: graded_world_def example_submissions_def)
  from success_rate_counts_graded[of graded_world "''two-sum''"] f h1
  have "fst (get_success_rate graded_world ''two-sum'') = Inr (2, 3)" by simp
  moreover from success_rate_counts_graded[of graded_world "''valid-parens''"] f h2
  have "fst (get_success_rate graded_world ''valid-parens'') = Inr (0, 0)" by simp
  ultimately show ?thesis using f h1 h2 by simp
qed

section \<open>Facts about the streak loop\<close>

lemma count_last_reviewed_pos:
  "count_last_reviewed d day \<noteq> 0 \<longleftrightarrow>
     (\<exists>r \<in> set (review_schedule d). last_reviewed r = Some day)"
  by (auto simp: count_last_reviewed_def filter_empty_conv)

lemma streak_loop_Inr:
  assumes "streak_loop c s d = (Inr n, c')"
  shows "s \<le> n \<and> (\<forall>k<n - s. count_last_reviewed (db c) (d - int k) \<noteq> 0)
       \<and> count_last_reviewed (db c) (d - int (n - s)) = 0 \<and> db c' = db c"
  using assms
proof (induction c s d rule: streak_loop.induct)
  case (1 c s d)
  obtain x c1 where sc: "sqlite_call c = (x, c1)" by (cases "sqlite_call c")
  with "1.prems" have x: "x = None"
    by (cases x) (simp_all add: streak_loop.simps[of c s d])
  from sc have dc: "db c1 = db c" using sqlite_call_frame by blast
  show ?case
  proof (cases "count_last_reviewed (db c1) d = 0")
    case True
    with "1.prems" sc x dc show ?thesis
      by (simp add: streak_loop.simps[of c s d])
  next
    case False
    with "1.prems" sc x obtain d' where da: "date_add d (- 1) = Inr d'"
      and rec: "streak_loop c1 (s + 1) d' = (Inr n, c')"
      by (cases "date_add d (- 1)") (simp_all add: streak_loop.simps[of c s d])
    from da have d': "d' = d - 1" by (simp add: date_add_def Let_def split: if_splits)
    from "1.IH"[OF sc[symmetric] x False da rec]
    have ih: "s + 1 \<le> n" "\<forall>k<n - (s + 1). count_last_reviewed (db c1) (d' - int k) \<noteq> 0"
      "count_last_reviewed (db c1) (d' - int (n - (s + 1))) = 0" "db c' = db c1"
      by blast+
    have "count_last_reviewed (db c) (d - int k) \<noteq> 0" if "k < n - s" for k
    proof (cases k)
      case 0
      with False dc show ?thesis by simp
    next
      case (Suc j)
      with that have "j < n - (s + 1)" by simp
      with ih(2) have "count_last_reviewed (db c1) (d' - int j) \<noteq> 0" by blast
      then have nz: "count_last_reviewed (db c) (d' - int j) \<noteq> 0" unfolding dc .
      have e: "d - int k = d' - int j" unfolding Suc d' by simp
      show ?thesis unfolding e by (rule nz)
    qed
    then have all: "\<forall>k<n - s. count_last_reviewed (db c) (d - int k) \<noteq> 0" by blast
    have e2: "d - int (n - s) = d' - int (n - (s + 1))"
      using ih(1) unfolding d' by linarith
    from ih(3) have "count_last_reviewed (db c) (d' - int (n - (s + 1))) = 0" unfolding dc .
    then have gap: "count_last_reviewed (db c) (d - int (n - s)) = 0" unfolding e2 .
    from ih(1) have le: "s \<le> n" by simp
    from ih(4) have "db c' = db c" unfolding dc .
    with le all gap show ?thesis by blast
  qed
qed

lemma streak_loop_total:
  assumes "faults c = []" and "d \<le> MAXORDINAL"
    and "0 < day" "day \<le> d" "count_last_reviewed (db c) day = 0"
  shows "\<exists>n. streak_loop c s d = (Inr n, c)"
  using assms
proof (induction c s d rule: streak_loop.induct)
  case (1 c s d)
  have sc: "sqlite_call c = (None, c)" using "1.prems"(1) by (rule sqlite_call_no_faults)
  show ?case
  proof (cases "count_last_reviewed (db c) d = 0")
    case True
    with sc show ?thesis by (simp add: streak_loop.simps[of c s d])
  next
    case False
    with "1.prems" have "day \<noteq> d" by auto
    with "1.prems" have lt: "day \<le> d - 1" by simp
    with "1.prems" have da: "date_add d (- 1) = Inr (d - 1)"
      by (simp add: date_add_def Let_def)
    from "1.IH"[OF sc[symmetric] refl False da] "1.prems" lt
    obtain n where "streak_loop c (s + 1) (d - 1) = (Inr n, c)" by auto
    with sc False da show ?thesis by (simp add: streak_loop.simps[of c s d])
  qed
qed

lemma get_review_stats_Inr:
  assumes "get_review_stats w = (Inr st, w')"
  shows "\<exists>c c'. streak_loop c 0 (clock w) = (Inr (current_streak st), c') \<and> db c = db w"
proof -
  from get_connection_Inr[OF assms[unfolded get_review_stats_def Let_def]]
  obtain c c' where b: "(case sqlite_call c of
          (Some e, c1) \<Rightarrow> (Inl e, c1)
        | (None, c1) \<Rightarrow>
       (case sqlite_call c1 of
          (Some e, c2) \<Rightarrow> (Inl e, c2)
        | (None, c2) \<Rightarrow>
       (case sqlite_call c2 of
          (Some e, c3) \<Rightarrow> (Inl e, c3)
        | (None, c3) \<Rightarrow>
       (case streak_loop c3 0 (clock w) of
          (Inl e, c4) \<Rightarrow> (Inl e, c4)
        | (Inr streak, c4) \<Rightarrow>
            (Inr \<lparr>due_today = length (filter (\<lambda>r. next_review_date r \<le> clock w)
                                (review_schedule (db c1))),
                  total_reviewed = length (filter (\<lambda>r. last_reviewed r \<noteq> None)
                                (review_schedule (db c2))),
                  current_streak = streak\<rparr>,
             c4))))) = (Inr st, c')"
    and f: "db c = db w"
    by blast
  obtain x1 c1 where s1: "sqlite_call c = (x1, c1)" by (cases "sqlite_call c")
  obtain x2 c2 where s2: "sqlite_call c1 = (x2, c2)" by (cases "sqlite_call c1")
  obtain x3 c3 where s3: "sqlite_call c2 = (x3, c3)" by (cases "sqlite_call c2")
  obtain r4 c4 where s4: "streak_loop c3 0 (clock w) = (r4, c4)"
    by (cases "streak_loop c3 0 (clock w)")
  from b s1 have x1: "x1 = None" by (cases x1) simp_all
  from b s1 x1 s2 have x2: "x2 = None" by (cases x2) simp_all
  from b s1 x1 s2 x2 s3 have x3: "x3 = None" by (cases x3) simp_all
  from b s1 x1 s2 x2 s3 x3 s4 have "r4 = Inr (current_streak st)"
    by (cases r4) (auto simp del: not_None_eq)
  with s4 have "streak_loop c3 0 (clock w) = (Inr (current_streak st), c4)" by simp
  moreover have "db c3 = db w"
    using sqlite_call_frame[OF s1] sqlite_call_frame[OF s2] sqlite_call_frame[OF s3] f
    by simp
  ultimately show ?thesis by blast
qed

lemma get_review_stats_total:
  assumes "faults w = []" and "clock w \<le> MAXORDINAL"
    and "0 < day" "day \<le> clock w" "count_last_reviewed (db w) day = 0"
  shows "\<exists>st. get_review_stats w = (Inr st, w)"
proof -
  from streak_loop_total[OF assms, of 0] obtain n where
    "streak_loop w 0 (clock w) = (Inr n, w)" by blast
  with assms(1) show ?thesis
    by (simp add: get_review_stats_def get_connection_def sqlite_call_no_faults Let_def)
qed

text \<open>
  Claim C6. The streak returned by \<^verbatim>\<open>get_review_stats\<close> is the largest number
  \<open>N\<close> such that each of the \<open>N\<close> consecutive days ending today has a schedule row
  with that day as \<open>last_reviewed\<close>; it is 0 when no row was reviewed today. The call
  returns when the store does not fail and some day between 0001-01-01 and today has
  no review.
\<close>

theorem streak_is_longest_run:
  "(get_review_stats w = (Inr st, w') \<longrightarrow>
      (\<forall>k<current_streak st.
          \<exists>r \<in> set (review_schedule (db w)). last_reviewed r = Some (clock w - int k))
    \<and> (\<forall>n. (\<forall>k<n. \<exists>r \<in> set (review_schedule (db w)).
                      last_reviewed r = Some (clock w - int k))
            \<longrightarrow> n \<le> current_streak st)
    \<and> ((\<forall>r \<in> set (review_schedule (db w)). last_reviewed r \<noteq> Some (clock w))
            \<longrightarrow> current_streak st = 0))
   \<and> (faults w = [] \<and> clock w \<le> MAXORDINAL \<and> 0 < day \<and> day \<le> clock w \<and>
      (\<forall>r \<in> set (review_schedule (db w)). last_reviewed r \<noteq> Some day)
      \<longrightarrow> (\<exists>st. get_review_stats w = (Inr st, w)))"
proof (intro conjI impI)
  assume a: "get_review_stats w = (Inr st, w')"
  from get_review_stats_Inr[OF a] obtain c c' where
    l: "streak_loop c 0 (clock w) = (Inr (current_streak st), c')" and d: "db c = db w"
    by blast
  from streak_loop_Inr[OF l] d
  have run: "\<forall>k<current_streak st. count_last_reviewed (db w) (clock w - int k) \<noteq> 0"
    and gap: "count_last_reviewed (db w) (clock w - int (current_streak st)) = 0"
    by simp_all
  from run show "\<forall>k<current_streak st.
          \<exists>r \<in> set (review_schedule (db w)). last_reviewed r = Some (clock w - int k)"
    by (simp only: count_last_reviewed_pos)
  have nogap: "\<not> (\<exists>r \<in> set (review_schedule (db w)).
                    last_reviewed r = Some (clock w - int (current_streak st)))"
    using gap count_last_reviewed_pos[of "db w" "clock w - int (current_streak st)"] by simp
  show "\<forall>n. (\<forall>k<n. \<exists>r \<in> set (review_schedule (db w)).
                      last_reviewed r = Some (clock w - int k))
            \<longrightarrow> n \<le> current_streak st"
  proof (intro allI impI)
    fix n
    assume all: "\<forall>k<n. \<exists>r \<in> set (review_schedule (db w)).
                      last_reviewed r = Some (clock w - int k)"
    show "n \<le> current_streak st"
    proof (rule ccontr)
      assume "\<not> n \<le> current_streak st"
      then have "current_streak st < n" by simp
      with all nogap show False by blast
    qed
  qed
  show "current_streak st = 0"
    if none: "\<forall>r \<in> set (review_schedule (db w)). last_reviewed r \<noteq> Some (clock w)"
  proof (rule ccontr)
    assume "current_streak st \<noteq> 0"
    then have "0 < current_streak st" by simp
    with run have "count_last_reviewed (db w) (clock w - int 0) \<noteq> 0" by blast
    then have "count_last_reviewed (db w) (clock w) \<noteq> 0" by simp
    then have "\<exists>r \<in> set (review_schedule (db w)). last_reviewed r = Some (clock w)"
      by (simp only: count_last_reviewed_pos)
    with none show False by blast
  qed
next
  assume h: "faults w = [] \<and> clock w \<le> MAXORDINAL \<and> 0 < day \<and> day \<le> clock w \<and>
      (\<forall>r \<in> set (review_schedule (db w)). last_reviewed r \<noteq> Some day)"
  then have "count_last_reviewed (db w) day = 0"
    using count_last_reviewed_pos[of "db w" day] by blast
  with h show "\<exists>st. get_review_stats w = (Inr st, w)"
    using get_review_stats_total[of w day] by blast
qed

theorem streak_is_longest_run_witness:
  "get_review_stats (scheduled_world
      [\<lparr>rs_problem_id = ''two-sum'', next_review_date = 738887, interval_days = 1,
        ease_factor = 5 / 2, last_reviewed = Some 738886\<rparr>,
       \<lparr>rs_problem_id = ''valid-parens'', next_review_date = 738888, interval_days = 3,
        ease_factor = 5 / 2, last_reviewed = Some 738885\<rparr>,
       \<lparr>rs_problem_id = ''longest-substring'', next_review_date = 738886,
        interval_days = 3, ease_factor = 5 / 2, last_reviewed = Some 738883\<rparr>]) =
     (Inr \<lparr>due_today = 1, total_reviewed = 3, current_streak = 2\<rparr>,
      scheduled_world
      [\<lparr>rs_problem_id = ''two-sum'', next_review_date = 738887, interval_days = 1,
        ease_factor = 5 / 2, last_reviewed = Some 738886\<rparr>,
       \<lparr>rs_problem_id = ''valid-parens'', next_review_date = 738888, interval_days = 3,
        ease_factor = 5 / 2, last_reviewed = Some 738885\<rparr>,
       \<lparr>rs_problem_id = ''longest-substring'', next_review_date = 738886,
        interval_days = 3, ease_factor = 5 / 2, last_reviewed = Some 738883\<rparr>])
   \<and> (\<exists>r. r \<in> set (review_schedule (db (scheduled_world
      [\<lparr>rs_problem_id = ''two-sum'', next_review_date = 738887, interval_days = 1,
        ease_factor = 5 / 2, last_reviewed = Some 738886\<rparr>,
       \<lparr>rs_problem_id = ''valid-parens'', next_review_date = 738888, interval_days = 3,
        ease_factor = 5 / 2, last_reviewed = Some 738885\<rparr>,
       \<lparr>rs_problem_id = ''longest-substring'', next_review_date = 738886,
        interval_days = 3, ease_factor = 5 / 2, last_reviewed = Some 738883\<rparr>]))) \<and>
        last_reviewed r = Some (738886 - int 1))
   \<and> (\<exists>st. get_review_stats (fresh_world 738886) = (Inr st, fresh_world 738886))"
proof -
  let ?w = "scheduled_world
      [\<lparr>rs_problem_id = ''two-sum'', next_review_date = 738887, interval_days = 1,
        ease_factor = 5 / 2, last_reviewed = Some 738886\<rparr>,
       \<lparr>rs_problem_id = ''valid-parens'', next_review_date = 738888, interval_days = 3,
        ease_factor = 5 / 2, last_reviewed = Some 738885\<rparr>,
       \<lparr>rs_problem_id = ''longest-substring'', next_review_date = 738886,
        interval_days = 3, ease_factor = 5 / 2, last_reviewed = Some 738883\<rparr>]"
  let ?st = "\<lparr>due_today = 1, total_reviewed = 3, current_streak = 2\<rparr>"
  have run: "get_review_stats ?w = (Inr ?st, ?w)"
    by (simp add: get_review_stats_def streak_loop.simps count_last_reviewed_def eval_defs)
  have c: "clock ?w = 738886" by (simp add: scheduled_world_def)
  from streak_is_longest_run[of ?w ?st ?w] run
  have "\<forall>k<current_streak ?st.
          \<exists>r \<in> set (review_schedule (db ?w)). last_reviewed r = Some (clock ?w - int k)"
    by blast
  then have "1 < current_streak ?st \<longrightarrow>
     (\<exists>r \<in> set (review_schedule (db ?w)). last_reviewed r = Some (clock ?w - int 1))"
    by blast
  then have "\<exists>r \<in> set (review_schedule (db ?w)). last_reviewed r = Some (clock ?w - int 1)"
    by simp
  then have one: "\<exists>r. r \<in> set (review_schedule (db ?w)) \<and>
                    last_reviewed r = Some (738886 - int 1)"
    unfolding c by blast
  have pre: "faults (fresh_world 738886) = [] \<and> clock (fresh_world 738886) \<le> MAXORDINAL \<and>
      0 < (738886::int) \<and> 738886 \<le> clock (fresh_world 738886) \<and>
      (\<forall>r \<in> set (review_schedule (db (fresh_world 738886))). last_reviewed r \<noteq> Some 738886)"
    by (simp add: fresh_world_def MAXORDINAL_def)
  from streak_is_longest_run[of "fresh_world 738886" _ _ 738886] pre
  have "\<exists>st. get_review_stats (fresh_world 738886) = (Inr st, fresh_world 738886)" by blast
  with run one show ?thesis by blast
qed

section \<open>Facts about store failures\<close>

lemma succeeded_refl: "succeeded fs fs"
  by (cases fs) auto

lemma succeeded_trans: "succeeded a b \<Longrightarrow> succeeded b c \<Longrightarrow> succeeded a c"
  by (induction a) auto

lemma succeeded_store_failure:
  "succeeded a b \<Longrightarrow> store_failure b = Some x \<Longrightarrow> store_failure a = Some x"
  by (induction a) auto

lemma succeeded_not_failure:
  "succeeded fs fs' \<Longrightarrow> store_failure fs \<noteq> Some (e, fs')"
proof (induction fs)
  case Nil
  then show ?case by simp
next
  case (Cons f fs)
  have len: "store_failure xs = Some (e, ys) \<Longrightarrow> length ys < length xs" for xs ys
    by (induction xs rule: store_failure.induct) auto
  from Cons show ?case
  proof (cases f)
    case None
    with Cons len[of fs fs'] len[of "None # fs" "None # fs"] show ?thesis
      by (auto dest: len)
  next
    case (Some e')
    with Cons show ?thesis by auto
  qed
qed

lemma traced_after: "succeeded a b \<Longrightarrow> traced b r c \<Longrightarrow> traced a r c"
  by (auto simp: traced_def split: sum.splits
           intro: succeeded_trans succeeded_store_failure)

lemma sqlite_call_None: "sqlite_call w = (None, w') \<Longrightarrow> succeeded (faults w) (faults w')"
  by (auto simp: sqlite_call_def succeeded_refl split: list.splits)

lemma sqlite_call_Some:
  "sqlite_call w = (Some e, w') \<Longrightarrow> store_failure (faults w) = Some (e, faults w')"
  by (auto simp: sqlite_call_def split: list.splits)

lemma sqlite_call_traced_Inl:
  "sqlite_call w = (Some e, w') \<Longrightarrow> traced (faults w) (Inl e) (faults w')"
  by (simp add: traced_def sqlite_call_Some)

lemma get_connection_traced:
  assumes body: "\<And>c r c'. body c = (r, c') \<Longrightarrow> traced (faults c) r (faults c')"
    and run: "get_connection body w = (r, w')"
  shows "traced (faults w) r (faults w')"
proof -
  obtain x1 w1 where s1: "sqlite_call w = (x1, w1)" by (cases "sqlite_call w")
  show ?thesis
  proof (cases x1)
    case (Some e)
    with run s1 show ?thesis by (auto simp: get_connection_def dest: sqlite_call_traced_Inl)
  next
    case None
    note n1 = this
    from s1 n1 have t1: "succeeded (faults w) (faults w1)" by (simp add: sqlite_call_None)
    obtain x2 w2 where s2: "sqlite_call w1 = (x2, w2)" by (cases "sqlite_call w1")
    show ?thesis
    proof (cases x2)
      case (Some e)
      with run s1 n1 s2 have "r = Inl e" "w' = w2" by (auto simp: get_connection_def)
      with s2 Some t1 show ?thesis
        using traced_after sqlite_call_traced_Inl by blast
    next
      case None
      note n2 = this
      from s2 n2 have "succeeded (faults w1) (faults w2)" by (simp add: sqlite_call_None)
      with t1 have t2: "succeeded (faults w) (faults w2)" by (rule succeeded_trans)
      obtain x3 w3 where s3: "sqlite_call w2 = (x3, w3)" by (cases "sqlite_call w2")
      show ?thesis
      proof (cases x3)
        case (Some e)
        with run s1 n1 s2 n2 s3 have "r = Inl e" "w' = w3" by (auto simp: get_connection_def)
        with s3 Some t2 show ?thesis
          using traced_after sqlite_call_traced_Inl by blast
      next
        case None
        note n3 = this
        from s3 n3 have "succeeded (faults w2) (faults w3)" by (simp add: sqlite_call_None)
        with t2 have t3: "succeeded (faults w) (faults w3)" by (rule succeeded_trans)
        obtain rb w4 where b: "body w3 = (rb, w4)" by (cases "body w3")
        from body[OF b] have tb: "traced (faults w3) rb (faults w4)" .
        show ?thesis
        proof (cases rb)
          case (Inl e)
          with run s1 n1 s2 n2 s3 n3 b have "r = Inl e" "faults w' = faults w4"
            by (auto simp: get_connection_def)
          with tb Inl t3 show ?thesis using traced_after by metis
        next
          case (Inr v)
          with tb have t4: "succeeded (faults w3) (faults w4)" by (simp add: traced_def)
          with t3 have t4': "succeeded (faults w) (faults w4)" by (rule succeeded_trans)
          obtain x5 w5 where s5: "sqlite_call w4 = (x5, w5)" by (cases "sqlite_call w4")
          show ?thesis
          proof (cases x5)
            case (Some e)
            with run s1 n1 s2 n2 s3 n3 b Inr s5 have "r = Inl e" "faults w' = faults w5"
              by (auto simp: get_connection_def)
            moreover from s5 Some have "traced (faults w4) (Inl e :: error + 'a) (faults w5)"
              by (simp add: sqlite_call_traced_Inl)
            ultimately show ?thesis using t4' traced_after by metis
          next
            case None
            with run s1 n1 s2 n2 s3 n3 b Inr s5 have "r = Inr v" "w' = w5"
              by (auto simp: get_connection_def)
            moreover from s5 None have "succeeded (faults w4) (faults w5)"
              by (simp add: sqlite_call_None)
            ultimately show ?thesis using t4' succeeded_trans by (auto simp: traced_def)
          qed
        qed
      qed
    qed
  qed
qed

end
